theory Spec2Isabelle
  imports Main "HOL-Library.Word" "HOL-Library.Signed_Division"
begin

section \<open>The spotify source element: buffer queue between delivery callback and pull loop\<close>

text \<open>
  The element of \<^verbatim>\<open>src/gstspotifysrc.c\<close> keeps a queue of audio buffers that the
  client library's delivery callback fills and the pipeline's \<^verbatim>\<open>create\<close> call drains.
  Every function below is the state transformer of the C function of the same name on
  the private structure \<^verbatim>\<open>GstSpotifySrcPrivate\<close>. The body of each function is
  taken as one atomic action: the C code runs it under \<^verbatim>\<open>priv->mutex\<close>, except for
  \<^verbatim>\<open>do_seek\<close>, which takes no lock and is called by the pipeline while the streaming
  thread is stopped. The only place where a call gives the mutex up, \<^verbatim>\<open>g_cond_wait\<close>
  in \<^verbatim>\<open>create\<close>, is a return point of the model (result \<open>None\<close>), from which the
  loop is entered again.
\<close>

subsection \<open>Machine integers and library constants\<close>

type_synonym guint8 = "8 word"
type_synonym gint = "32 word"
type_synonym guint = "32 word"
type_synonym gint64 = "64 word"
type_synonym guint64 = "64 word"
type_synonym GstClockTime = "64 word"
type_synonym GstCaps = string

text \<open>GStreamer's clock units (gstclock.h): nanoseconds in a second and in a millisecond.\<close>

definition GST_SECOND :: guint64 where
  "GST_SECOND = 1000000000"

definition GST_MSECOND :: int where
  "GST_MSECOND = 1000000"

text \<open>
  GStreamer's \<^verbatim>\<open>gst_util_uint64_scale (val, num, denom)\<close>: \<open>val * num / denom\<close>
  rounded down, computed without intermediate overflow; \<^verbatim>\<open>G_MAXUINT64\<close> when the
  result does not fit or \<open>denom\<close> is 0.
\<close>

definition gst_util_uint64_scale :: "guint64 \<Rightarrow> guint64 \<Rightarrow> guint64 \<Rightarrow> guint64" where
  "gst_util_uint64_scale val num denom =
     (if denom = 0 then - 1
      else if unat val * unat num div unat denom < 2 ^ 64
      then word_of_nat (unat val * unat num div unat denom)
      else - 1)"

subsection \<open>Buffers\<close>

record GstBuffer =
  GST_BUFFER_DATA :: "guint8 list"
  GST_BUFFER_SIZE :: guint
  GST_BUFFER_TIMESTAMP :: GstClockTime
  GST_BUFFER_DURATION :: GstClockTime
  GST_BUFFER_CAPS :: "GstCaps option"

text \<open>A fresh buffer of \<open>n\<close> bytes: no timestamp, no duration (\<^verbatim>\<open>GST_CLOCK_TIME_NONE\<close>), no caps.\<close>

definition gst_buffer_new_and_alloc :: "guint \<Rightarrow> GstBuffer" where
  "gst_buffer_new_and_alloc n =
     \<lparr>GST_BUFFER_DATA = replicate (unat n) 0, GST_BUFFER_SIZE = n,
      GST_BUFFER_TIMESTAMP = - 1, GST_BUFFER_DURATION = - 1, GST_BUFFER_CAPS = None\<rparr>"

text \<open>\<^verbatim>\<open>memcpy (dest, src, n)\<close>: the first \<open>n\<close> bytes of \<open>dest\<close> become those of \<open>src\<close>.\<close>

definition memcpy :: "guint8 list \<Rightarrow> guint8 list \<Rightarrow> nat \<Rightarrow> guint8 list" where
  "memcpy dest src n = take n src @ drop n dest"

text \<open>\<^verbatim>\<open>gst_buffer_set_caps\<close> on a writable copy, done by \<^verbatim>\<open>create\<close> only when the element has caps.\<close>

definition set_caps_opt :: "GstCaps option \<Rightarrow> GstBuffer \<Rightarrow> GstBuffer" where
  "set_caps_opt c b = (case c of None \<Rightarrow> b | Some k \<Rightarrow> b\<lparr>GST_BUFFER_CAPS := Some k\<rparr>)"

subsection \<open>The client library, seen from the element\<close>

datatype sp_error = SP_ERROR_OK | SP_ERROR_OTHER nat

text \<open>The commands the element issues to the client session, in the order issued.\<close>

datatype sp_call =
    spw_session_create
  | spw_session_login
  | spw_session_player_load
  | spw_session_player_play bool
  | spw_session_player_seek gint
  | spw_session_player_unload
  | spw_session_release

record sp_audioformat =
  sample_type :: nat
  sample_rate :: gint
  channels :: gint

text \<open>What the file system and the client library answer during \<^verbatim>\<open>start\<close>.\<close>

record start_responses =
  keyfile_read :: bool
  session_create_ret :: sp_error
  thread_created :: bool
  session_login_ret :: sp_error
  login_completes :: bool
  link_created :: bool
  link_is_track :: bool
  track_loads :: bool
  player_load_ret :: sp_error
  track_duration :: gint
  player_play_ret :: sp_error

text \<open>What the client library answers during \<^verbatim>\<open>stop\<close>.\<close>

record stop_responses =
  player_pause_ret :: sp_error
  player_unload_ret :: sp_error
  session_release_ret :: sp_error

subsection \<open>The private structure\<close>

text \<open>
  \<^verbatim>\<open>GstSpotifySrcPrivate\<close>. The property strings (user, pass, uri, appkey file) are
  only handed to the client library and are left out. In place of the mutex, the
  condition variable and the session context the record has \<open>broadcasts\<close>, the number
  of \<^verbatim>\<open>g_cond_broadcast (priv->cond)\<close> calls made so far, and \<open>client_calls\<close>, the
  commands issued to the client session so far.
\<close>

record priv =
  queue :: "GstBuffer list"
  caps :: "GstCaps option"
  size_priv :: gint64
  max_bytes :: guint64
  flushing :: bool
  started :: bool
  is_eos :: bool
  is_first_seek :: bool
  queued_bytes :: guint64
  stutter :: guint64
  buffer_timestamp :: GstClockTime
  broadcasts :: nat
  client_calls :: "sp_call list"

definition DEFAULT_PROP_MAX_BYTES :: guint64 where
  "DEFAULT_PROP_MAX_BYTES = 1000000"

text \<open>\<^verbatim>\<open>gst_spotify_src_init\<close> on the zero-filled instance structure.\<close>

definition gst_spotify_src_init :: priv where
  "gst_spotify_src_init =
     \<lparr>queue = [], caps = None, size_priv = - 1, max_bytes = DEFAULT_PROP_MAX_BYTES,
      flushing = False, started = False, is_eos = False, is_first_seek = False,
      queued_bytes = 0, stutter = 0, buffer_timestamp = 0,
      broadcasts = 0, client_calls = []\<rparr>"

definition g_cond_broadcast :: "priv \<Rightarrow> priv" where
  "g_cond_broadcast p = p\<lparr>broadcasts := Suc (broadcasts p)\<rparr>"

definition client_call :: "sp_call \<Rightarrow> priv \<Rightarrow> priv" where
  "client_call c p = p\<lparr>client_calls := client_calls p @ [c]\<rparr>"

subsection \<open>Queue operations\<close>

text \<open>The loop \<^verbatim>\<open>while ((buf = g_queue_pop_head (priv->queue))) gst_buffer_unref (buf);\<close>\<close>

fun pop_all :: "GstBuffer list \<Rightarrow> GstBuffer list" where
  "pop_all [] = []"
| "pop_all (buf # rest) = pop_all rest"

definition gst_spotify_src_flush_queued :: "priv \<Rightarrow> priv" where
  "gst_spotify_src_flush_queued p = p\<lparr>queue := pop_all (queue p), queued_bytes := 0\<rparr>"

definition gst_spotify_src_unlock :: "priv \<Rightarrow> bool \<times> priv" where
  "gst_spotify_src_unlock p = (True, g_cond_broadcast (p\<lparr>flushing := True\<rparr>))"

definition gst_spotify_src_unlock_stop :: "priv \<Rightarrow> bool \<times> priv" where
  "gst_spotify_src_unlock_stop p = (True, g_cond_broadcast (p\<lparr>flushing := False\<rparr>))"

text \<open>
  \<^verbatim>\<open>gst_spotify_src_alloc_and_queue (spotifysrc, num_frames, data_frames, data_size)\<close>.
  \<open>alloc_ok\<close> says whether \<^verbatim>\<open>gst_buffer_new_and_alloc\<close> returned a buffer.
\<close>

definition gst_spotify_src_alloc_and_queue ::
  "guint \<Rightarrow> guint8 list \<Rightarrow> guint \<Rightarrow> bool \<Rightarrow> priv \<Rightarrow> bool \<times> priv" where
  "gst_spotify_src_alloc_and_queue num_frames data_frames data_size alloc_ok p =
     (if flushing p then (False, p)
      else if is_eos p then (False, p)
      else if max_bytes p \<noteq> 0 \<and> max_bytes p \<le> queued_bytes p then (False, p)
      else if \<not> alloc_ok then (False, p)
      else
        let fresh = gst_buffer_new_and_alloc data_size;
            duration = gst_util_uint64_scale (ucast num_frames) GST_SECOND 44100;
            buffer = fresh\<lparr>GST_BUFFER_DATA :=
                              memcpy (GST_BUFFER_DATA fresh) data_frames (unat data_size),
                            GST_BUFFER_DURATION := duration,
                            GST_BUFFER_TIMESTAMP := buffer_timestamp p\<rparr>
        in (True,
            g_cond_broadcast
              (p\<lparr>queue := queue p @ [buffer],
                 queued_bytes := queued_bytes p + ucast (GST_BUFFER_SIZE buffer),
                 buffer_timestamp := buffer_timestamp p + duration\<rparr>)))"

definition gst_spotify_src_end_of_stream :: "priv \<Rightarrow> priv" where
  "gst_spotify_src_end_of_stream p =
     (if flushing p then p else g_cond_broadcast (p\<lparr>is_eos := True\<rparr>))"

subsection \<open>The pull loop\<close>

datatype GstFlowReturn =
    GST_FLOW_OK GstBuffer
  | GST_FLOW_WRONG_STATE
  | GST_FLOW_UNEXPECTED

text \<open>
  One pass through the body of \<^verbatim>\<open>while (TRUE)\<close> in \<^verbatim>\<open>gst_spotify_src_create\<close>, up to
  a return or up to \<^verbatim>\<open>g_cond_wait\<close>. The result \<open>None\<close> is the thread going to sleep
  in \<^verbatim>\<open>g_cond_wait\<close>; when it wakes it makes another pass. (The second emptiness test in
  the else branch cannot succeed: the mutex is held since the first one.)
\<close>

definition create_loop :: "priv \<Rightarrow> GstFlowReturn option \<times> priv" where
  "create_loop p =
     (case queue p of
        buf # rest \<Rightarrow>
          (Some (GST_FLOW_OK (set_caps_opt (caps p) buf)),
           g_cond_broadcast
             (p\<lparr>queue := rest,
                queued_bytes := queued_bytes p - ucast (GST_BUFFER_SIZE buf)\<rparr>))
      | [] \<Rightarrow>
          if flushing p then (Some GST_FLOW_WRONG_STATE, p)
          else if is_eos p then (Some GST_FLOW_UNEXPECTED, p)
          else (None, p\<lparr>stutter := stutter p + 1\<rparr>))"

text \<open>
  A call of \<^verbatim>\<open>gst_spotify_src_create\<close>: the flushing test, then the first pass of the
  loop. (The segment of the base class, updated before the mutex is taken, is not part
  of the private structure and is left out.)
\<close>

definition gst_spotify_src_create :: "priv \<Rightarrow> GstFlowReturn option \<times> priv" where
  "gst_spotify_src_create p =
     (if flushing p then (Some GST_FLOW_WRONG_STATE, p) else create_loop p)"

subsection \<open>Session commands\<close>

definition spotify_create :: "start_responses \<Rightarrow> priv \<Rightarrow> bool \<times> priv" where
  "spotify_create r p =
     (if \<not> keyfile_read r then (False, p)
      else if session_create_ret r = SP_ERROR_OK
      then (if thread_created r then (True, client_call spw_session_create p)
            else (False, client_call spw_session_release (client_call spw_session_create p)))
      else (False, client_call spw_session_create p))"

text \<open>
  The two busy-wait loops (for the login callback, for the track to load) end only when
  the client library says so: \<open>None\<close> is a loop that never ends.
\<close>

definition spotify_login :: "start_responses \<Rightarrow> priv \<Rightarrow> bool option \<times> priv" where
  "spotify_login r p =
     (if session_login_ret r = SP_ERROR_OK
      then (if login_completes r then (Some True, client_call spw_session_login p)
            else (None, client_call spw_session_login p))
      else (Some False, client_call spw_session_login p))"

definition spotify_play :: "start_responses \<Rightarrow> priv \<Rightarrow> bool option \<times> priv" where
  "spotify_play r p =
     (if \<not> link_created r then (Some False, p)
      else if \<not> link_is_track r then (Some False, p)
      else if \<not> track_loads r then (None, p)
      else if player_load_ret r \<noteq> SP_ERROR_OK
      then (Some False, client_call spw_session_player_load p)
      else
        let p1 = (client_call spw_session_player_load p)
                   \<lparr>size_priv := word_of_int (sint (track_duration r) * GST_MSECOND)\<rparr>;
            p2 = client_call (spw_session_player_play True) p1
        in if player_play_ret r \<noteq> SP_ERROR_OK then (Some False, p2) else (Some True, p2))"

definition spotify_seek :: "gint \<Rightarrow> sp_error \<Rightarrow> priv \<Rightarrow> bool \<times> priv" where
  "spotify_seek offset ret p =
     (if ret \<noteq> SP_ERROR_OK then (False, client_call (spw_session_player_seek offset) p)
      else (True, client_call (spw_session_player_seek offset) p))"

definition spotify_stop :: "stop_responses \<Rightarrow> priv \<Rightarrow> bool \<times> priv" where
  "spotify_stop r p =
     (if player_pause_ret r \<noteq> SP_ERROR_OK
      then (False, client_call (spw_session_player_play False) p)
      else if player_unload_ret r \<noteq> SP_ERROR_OK
      then (False, client_call spw_session_player_unload
                     (client_call (spw_session_player_play False) p))
      else (True, (client_call spw_session_player_unload
                     (client_call (spw_session_player_play False) p))\<lparr>size_priv := - 1\<rparr>))"

definition spotify_destroy :: "stop_responses \<Rightarrow> priv \<Rightarrow> bool \<times> priv" where
  "spotify_destroy r p =
     (if session_release_ret r \<noteq> SP_ERROR_OK then (False, client_call spw_session_release p)
      else (True, client_call spw_session_release p))"

subsection \<open>Life cycle and seek\<close>

text \<open>
  \<^verbatim>\<open>gst_spotify_src_start\<close>. The three session commands are joined by \<^verbatim>\<open>||\<close>, so a
  later one runs only when the earlier ones succeeded. The result \<open>None\<close> is a start
  that never returns (it still holds the mutex).
\<close>

definition gst_spotify_src_start :: "start_responses \<Rightarrow> priv \<Rightarrow> bool option \<times> priv" where
  "gst_spotify_src_start r p =
     (let p0 = p\<lparr>is_first_seek := True, flushing := False, stutter := 0,
                 buffer_timestamp := 0\<rparr>
      in case spotify_create r p0 of
           (False, p1) \<Rightarrow> (Some False, p1)
         | (True, p1) \<Rightarrow>
             (case spotify_login r p1 of
                (None, p2) \<Rightarrow> (None, p2)
              | (Some False, p2) \<Rightarrow> (Some False, p2)
              | (Some True, p2) \<Rightarrow>
                  (case spotify_play r p2 of
                     (None, p3) \<Rightarrow> (None, p3)
                   | (Some False, p3) \<Rightarrow> (Some False, p3)
                   | (Some True, p3) \<Rightarrow> (Some True, p3\<lparr>started := True\<rparr>))))"

definition gst_spotify_src_stop :: "stop_responses \<Rightarrow> priv \<Rightarrow> bool \<times> priv" where
  "gst_spotify_src_stop r p =
     (let p0 = p\<lparr>is_eos := False, flushing := True\<rparr>;
          p1 = snd (spotify_stop r p0);
          p2 = gst_spotify_src_flush_queued p1;
          p3 = snd (spotify_destroy r p2)
      in (True, p3\<lparr>started := False\<rparr>))"

text \<open>
  \<^verbatim>\<open>gst_spotify_src_do_seek\<close> with \<open>desired_position = segment->last_stop\<close> (a signed
  64-bit value) and the answer \<open>ret\<close> of the client's seek command. The division by
  \<^verbatim>\<open>GST_MSECOND\<close> is C's signed division, and its result is cut to the \<^verbatim>\<open>int\<close>
  parameter of \<^verbatim>\<open>spotify_seek\<close>.
\<close>

definition gst_spotify_src_do_seek :: "gint64 \<Rightarrow> sp_error \<Rightarrow> priv \<Rightarrow> bool \<times> priv" where
  "gst_spotify_src_do_seek desired_position ret p =
     (if is_first_seek p \<and> desired_position = 0 then (True, p\<lparr>is_first_seek := False\<rparr>)
      else
        case spotify_seek (word_of_int (sint desired_position sdiv GST_MSECOND)) ret p of
          (True, p1) \<Rightarrow>
            (True, (gst_spotify_src_flush_queued p1)
                     \<lparr>is_eos := False, buffer_timestamp := desired_position\<rparr>)
        | (False, p1) \<Rightarrow> (False, p1))"

subsection \<open>Callbacks of the client library\<close>

text \<open>
  \<^verbatim>\<open>spotify_music_delivery_cb\<close>. The product \<^verbatim>\<open>num_frames * sizeof(int16_t) * format->channels\<close>
  is computed in \<^verbatim>\<open>size_t\<close> (both \<^verbatim>\<open>int\<close>s are sign-extended) and cut to the 32 bits
  of \<^verbatim>\<open>guint bufsize\<close>.
\<close>

definition spotify_music_delivery_cb ::
  "sp_audioformat \<Rightarrow> guint8 list \<Rightarrow> gint \<Rightarrow> bool \<Rightarrow> priv \<Rightarrow> gint \<times> priv" where
  "spotify_music_delivery_cb format frames num_frames alloc_ok p =
     (let bufsize = (ucast ((scast num_frames :: 64 word) * 2 * scast (channels format)) :: guint)
      in if num_frames = 0 then (0, p)
         else case gst_spotify_src_alloc_and_queue num_frames frames bufsize alloc_ok p of
                (True, p1) \<Rightarrow> (num_frames, p1)
              | (False, p1) \<Rightarrow> (0, p1))"

definition spotify_end_of_track_cb :: "priv \<Rightarrow> priv" where
  "spotify_end_of_track_cb p = gst_spotify_src_end_of_stream p"

subsection \<open>Interleavings\<close>

text \<open>
  The calls that the pipeline threads and the client library's thread make on the
  element, each with what its environment answers. \<open>Create\<close> is a call of
  \<^verbatim>\<open>gst_spotify_src_create\<close>; \<open>Wake\<close> is a thread asleep in its \<^verbatim>\<open>g_cond_wait\<close>
  waking up (for whatever reason) and making another pass through the loop.
\<close>

datatype op =
    Start start_responses
  | Stop stop_responses
  | Unlock
  | UnlockStop
  | DoSeek gint64 sp_error
  | Create
  | Wake
  | MusicDelivery sp_audioformat "guint8 list" gint bool
  | AllocAndQueue guint "guint8 list" guint bool
  | EndOfTrack
  | FlushQueued

text \<open>What a call gives back to its caller.\<close>

datatype event =
    Queued GstBuffer
  | Refused
  | Returned GstFlowReturn
  | Waits
  | Result bool
  | Hung
  | Silent

text \<open>
  The element together with its threads: \<open>waiters\<close> is the number of threads asleep in
  \<^verbatim>\<open>g_cond_wait\<close>, and \<open>wedged\<close> holds once a \<^verbatim>\<open>start\<close> spins forever with the mutex
  held.
\<close>

record system =
  src :: priv
  waiters :: nat
  wedged :: bool

fun perform :: "op \<Rightarrow> system \<Rightarrow> system \<times> event" where
  "perform (Start r) s =
     (case gst_spotify_src_start r (src s) of
        (None, p) \<Rightarrow> (s\<lparr>src := p, wedged := True\<rparr>, Hung)
      | (Some ok, p) \<Rightarrow> (s\<lparr>src := p\<rparr>, Result ok))"
| "perform (Stop r) s =
     (case gst_spotify_src_stop r (src s) of (ok, p) \<Rightarrow> (s\<lparr>src := p\<rparr>, Result ok))"
| "perform Unlock s =
     (case gst_spotify_src_unlock (src s) of (ok, p) \<Rightarrow> (s\<lparr>src := p\<rparr>, Result ok))"
| "perform UnlockStop s =
     (case gst_spotify_src_unlock_stop (src s) of (ok, p) \<Rightarrow> (s\<lparr>src := p\<rparr>, Result ok))"
| "perform (DoSeek pos ret) s =
     (case gst_spotify_src_do_seek pos ret (src s) of (ok, p) \<Rightarrow> (s\<lparr>src := p\<rparr>, Result ok))"
| "perform Create s =
     (case gst_spotify_src_create (src s) of
        (None, p) \<Rightarrow> (s\<lparr>src := p, waiters := Suc (waiters s)\<rparr>, Waits)
      | (Some res, p) \<Rightarrow> (s\<lparr>src := p\<rparr>, Returned res))"
| "perform Wake s =
     (if waiters s = 0 then (s, Silent)
      else case create_loop (src s) of
             (None, p) \<Rightarrow> (s\<lparr>src := p\<rparr>, Waits)
           | (Some res, p) \<Rightarrow> (s\<lparr>src := p, waiters := waiters s - 1\<rparr>, Returned res))"
| "perform (MusicDelivery format frames num_frames alloc_ok) s =
     (case spotify_music_delivery_cb format frames num_frames alloc_ok (src s) of
        (consumed, p) \<Rightarrow>
          (s\<lparr>src := p\<rparr>, if consumed = 0 then Refused else Queued (last (queue p))))"
| "perform (AllocAndQueue num_frames data_frames data_size alloc_ok) s =
     (case gst_spotify_src_alloc_and_queue num_frames data_frames data_size alloc_ok (src s) of
        (True, p) \<Rightarrow> (s\<lparr>src := p\<rparr>, Queued (last (queue p)))
      | (False, p) \<Rightarrow> (s\<lparr>src := p\<rparr>, Refused))"
| "perform EndOfTrack s = (s\<lparr>src := spotify_end_of_track_cb (src s)\<rparr>, Silent)"
| "perform FlushQueued s = (s\<lparr>src := gst_spotify_src_flush_queued (src s)\<rparr>, Silent)"

text \<open>
  Every call takes \<^verbatim>\<open>priv->mutex\<close> first, except \<^verbatim>\<open>do_seek\<close>, which takes no lock.
  With the mutex held for good by a start that spins, the calls that need it get
  nowhere, and \<^verbatim>\<open>do_seek\<close> still runs.
\<close>

fun takes_mutex :: "op \<Rightarrow> bool" where
  "takes_mutex (DoSeek pos ret) = False"
| "takes_mutex x = True"

definition step :: "op \<Rightarrow> system \<Rightarrow> system \<times> event" where
  "step x s = (if wedged s \<and> takes_mutex x then (s, Silent) else perform x s)"

fun exec :: "op list \<Rightarrow> system \<Rightarrow> system" where
  "exec [] s = s"
| "exec (x # xs) s = exec xs (fst (step x s))"

fun trace :: "op list \<Rightarrow> system \<Rightarrow> event list" where
  "trace [] s = []"
| "trace (x # xs) s = snd (step x s) # trace xs (fst (step x s))"

text \<open>The element as created, with no thread in it.\<close>

definition boot :: system where
  "boot = \<lparr>src = gst_spotify_src_init, waiters = 0, wedged = False\<rparr>"

text \<open>The buffers admitted to the queue and the buffers handed to the consumer, in order.\<close>

fun queued_of :: "event list \<Rightarrow> GstBuffer list" where
  "queued_of [] = []"
| "queued_of (Queued b # es) = b # queued_of es"
| "queued_of (e # es) = queued_of es"

fun returned_of :: "event list \<Rightarrow> GstBuffer list" where
  "returned_of [] = []"
| "returned_of (Returned (GST_FLOW_OK b) # es) = b # returned_of es"
| "returned_of (e # es) = returned_of es"

text \<open>The bytes held by a list of buffers.\<close>

definition bytes_of :: "GstBuffer list \<Rightarrow> nat" where
  "bytes_of bs = sum_list (map (\<lambda>b. unat (GST_BUFFER_SIZE b)) bs)"

subsection \<open>Notions used in the statements\<close>

text \<open>
  The buffer that \<^verbatim>\<open>gst_spotify_src_alloc_and_queue\<close> puts on the queue when it admits
  the data: the copied bytes, the size it was asked for, the running position as
  timestamp and the duration of \<open>num_frames\<close> frames at 44100 Hz.
\<close>

definition queued_buffer :: "guint \<Rightarrow> guint8 list \<Rightarrow> guint \<Rightarrow> GstClockTime \<Rightarrow> GstBuffer" where
  "queued_buffer num_frames data_frames data_size ts =
     \<lparr>GST_BUFFER_DATA = take (unat data_size) data_frames, GST_BUFFER_SIZE = data_size,
      GST_BUFFER_TIMESTAMP = ts,
      GST_BUFFER_DURATION = gst_util_uint64_scale (ucast num_frames) GST_SECOND 44100,
      GST_BUFFER_CAPS = None\<rparr>"

text \<open>
  Calls during which the element just streams: all but start, stop, seek and a flush of
  the queue.
\<close>

fun streaming :: "op \<Rightarrow> bool" where
  "streaming (Start r) = False"
| "streaming (Stop r) = False"
| "streaming (DoSeek pos ret) = False"
| "streaming FlushQueued = False"
| "streaming x = True"

text \<open>Calls that can take the end-of-stream flag back: stop, and a seek the client accepts.\<close>

fun clears_eos :: "op \<Rightarrow> bool" where
  "clears_eos (Stop r) = True"
| "clears_eos (DoSeek pos ret) = (ret = SP_ERROR_OK)"
| "clears_eos x = False"

fun is_start :: "op \<Rightarrow> bool" where
  "is_start (Start r) = True"
| "is_start x = False"

fun seeks_to_zero :: "op \<Rightarrow> bool" where
  "seeks_to_zero (DoSeek pos ret) = (pos = 0)"
| "seeks_to_zero x = False"

text \<open>
  A list of buffers is linked from \<open>t\<close> when the first timestamp is \<open>t\<close> and every
  further timestamp is its predecessor's timestamp plus its predecessor's duration
  (in 64-bit arithmetic); \<open>position_after\<close> is where such a chain ends.
\<close>

fun linked :: "GstClockTime \<Rightarrow> GstBuffer list \<Rightarrow> bool" where
  "linked t [] = True"
| "linked t (b # bs) = (GST_BUFFER_TIMESTAMP b = t \<and> linked (t + GST_BUFFER_DURATION b) bs)"

fun position_after :: "GstClockTime \<Rightarrow> GstBuffer list \<Rightarrow> GstClockTime" where
  "position_after t [] = t"
| "position_after t (b # bs) = position_after (t + GST_BUFFER_DURATION b) bs"

definition durations :: "GstBuffer list \<Rightarrow> nat" where
  "durations bs = sum_list (map (\<lambda>b. unat (GST_BUFFER_DURATION b)) bs)"

subsection \<open>Concrete states and inputs\<close>

text \<open>The element with a limit of 500 bytes, and after buffers of 100, 200 and 300 bytes.\<close>

definition scenario_500 :: priv where
  "scenario_500 = gst_spotify_src_init\<lparr>max_bytes := 500\<rparr>"

definition scenario_100 :: priv where
  "scenario_100 = snd (gst_spotify_src_alloc_and_queue 25 (replicate 100 0) 100 True scenario_500)"

definition scenario_300 :: priv where
  "scenario_300 = snd (gst_spotify_src_alloc_and_queue 50 (replicate 200 0) 200 True scenario_100)"

definition scenario_600 :: priv where
  "scenario_600 = snd (gst_spotify_src_alloc_and_queue 75 (replicate 300 0) 300 True scenario_300)"

definition stereo_44100 :: sp_audioformat where
  "stereo_44100 = \<lparr>sample_type = 0, sample_rate = 44100, channels = 2\<rparr>"

definition stereo_48000 :: sp_audioformat where
  "stereo_48000 = \<lparr>sample_type = 0, sample_rate = 48000, channels = 2\<rparr>"

text \<open>A start during which the client library accepts every command; a stop likewise.\<close>

definition all_ok :: start_responses where
  "all_ok = \<lparr>keyfile_read = True, session_create_ret = SP_ERROR_OK, thread_created = True,
             session_login_ret = SP_ERROR_OK, login_completes = True, link_created = True,
             link_is_track = True, track_loads = True, player_load_ret = SP_ERROR_OK,
             track_duration = 180000, player_play_ret = SP_ERROR_OK\<rparr>"

definition stop_ok :: stop_responses where
  "stop_ok = \<lparr>player_pause_ret = SP_ERROR_OK, player_unload_ret = SP_ERROR_OK,
              session_release_ret = SP_ERROR_OK\<rparr>"

text \<open>The element with one buffer of 441 stereo frames (10 ms) queued, and then unlocked.\<close>

definition one_queued :: priv where
  "one_queued =
     snd (gst_spotify_src_alloc_and_queue 441 (replicate 1764 0) 1764 True gst_spotify_src_init)"

definition flushing_one_queued :: priv where
  "flushing_one_queued = snd (gst_spotify_src_unlock one_queued)"

text \<open>The element as created and then unlocked.\<close>

definition unlocked_init :: priv where
  "unlocked_init = snd (gst_spotify_src_unlock gst_spotify_src_init)"

text \<open>The element after a start that went well.\<close>

definition playing :: system where
  "playing = exec [Start all_ok] boot"

text \<open>The element after that start, the first seek to 0 and one delivered buffer of 441 frames.\<close>

definition seek_again :: system where
  "seek_again =
     exec [DoSeek 0 SP_ERROR_OK, MusicDelivery stereo_44100 (replicate 1764 0) 441 True] playing"

text \<open>The element after a start and an end-of-track signal.\<close>

definition at_eos :: system where
  "at_eos = exec [EndOfTrack] playing"

text \<open>Two deliveries and three pulls, the second pull finding the queue empty and waiting.\<close>

definition two_in_two_out :: "op list" where
  "two_in_two_out =
     [MusicDelivery stereo_44100 (replicate 1764 0) 441 True, Create,
      Create, MusicDelivery stereo_44100 (replicate 400 1) 100 True, Wake]"

text \<open>The element after a start and one delivered buffer of 441 frames.\<close>

definition delivered_10ms :: system where
  "delivered_10ms = exec [MusicDelivery stereo_44100 (replicate 1764 0) 441 True] playing"

text \<open>The element after a start and a seek accepted for the position \<open>- 1\<close>.\<close>

definition near_wrap :: system where
  "near_wrap = exec [DoSeek 0 SP_ERROR_OK, DoSeek (- 1) SP_ERROR_OK] playing"

text \<open>One more delivery of 441 frames, then two pulls.\<close>

definition one_more_then_pull :: "op list" where
  "one_more_then_pull =
     [MusicDelivery stereo_44100 (replicate 1764 0) 441 True, Create, Create]"

text \<open>Two deliveries of 441 frames, then two pulls.\<close>

definition two_deliveries :: "op list" where
  "two_deliveries =
     [MusicDelivery stereo_44100 (replicate 1764 0) 441 True,
      MusicDelivery stereo_44100 (replicate 1764 0) 441 True, Create, Create]"

section \<open>Properties\<close>

subsection \<open>Arithmetic of sizes and durations\<close>

lemma pop_all_Nil [simp]: "pop_all bs = []"
  by (induction bs) simp_all

lemma unat_ucast_guint: "unat (ucast (n :: guint) :: guint64) = unat n"
  using unsigned_less [of n, where 'a = nat]
  by (simp add: unsigned_ucast_eq take_bit_nat_eq_self_iff)

lemma scale_frames:
  "unat (gst_util_uint64_scale (ucast (n :: guint)) GST_SECOND 44100)
     = unat n * 1000000000 div 44100"
proof -
  have n: "unat n < 2 ^ 32"
    using unsigned_less [of n, where 'a = nat] by simp
  have "unat n * 1000000000 div 44100 \<le> unat n * 1000000000"
    by (rule div_le_dividend)
  also have "\<dots> < 2 ^ 32 * 1000000000"
    using n by simp
  also have "\<dots> < (2::nat) ^ 64"
    by simp
  finally have fits: "unat n * 1000000000 div 44100 < 2 ^ 64" .
  show ?thesis
    using fits
    by (simp add: gst_util_uint64_scale_def GST_SECOND_def unat_ucast_guint unat_of_nat)
qed

lemma bufsize_eq:
  "(ucast ((scast (n :: gint) :: 64 word) * 2 * scast (c :: gint)) :: guint) = n * 2 * c"
proof -
  have two: "(2 :: 64 word) = word_of_int 2"
    by simp
  have wide: "(scast n :: 64 word) * 2 * scast c = word_of_int (sint n * 2 * sint c)"
    unfolding scast_eq two wi_hom_mult ..
  have cut: "(ucast (word_of_int (sint n * 2 * sint c) :: 64 word) :: guint)
               = word_of_int (sint n * 2 * sint c)"
    by (rule ucast_down_wi) (simp add: is_down)
  have narrow: "(word_of_int (sint n * 2 * sint c) :: guint)
                  = word_of_int (sint n) * word_of_int 2 * word_of_int (sint c)"
    unfolding wi_hom_mult ..
  show ?thesis
    unfolding wide cut narrow by simp
qed

subsection \<open>Admission to the queue\<close>

lemma alloc_refused:
  "flushing p \<or> is_eos p \<or> (max_bytes p \<noteq> 0 \<and> max_bytes p \<le> queued_bytes p) \<or> \<not> ok
   \<Longrightarrow> gst_spotify_src_alloc_and_queue n d sz ok p = (False, p)"
  by (auto simp: gst_spotify_src_alloc_and_queue_def)

lemma alloc_admitted:
  assumes "\<not> flushing p" "\<not> is_eos p" "max_bytes p = 0 \<or> queued_bytes p < max_bytes p" "ok"
  shows "gst_spotify_src_alloc_and_queue n d sz ok p =
           (True, p\<lparr>queue := queue p @ [queued_buffer n d sz (buffer_timestamp p)],
                    queued_bytes := queued_bytes p + ucast sz,
                    buffer_timestamp := buffer_timestamp p
                       + gst_util_uint64_scale (ucast n) GST_SECOND 44100,
                    broadcasts := Suc (broadcasts p)\<rparr>)"
  using assms
  by (auto simp: gst_spotify_src_alloc_and_queue_def g_cond_broadcast_def queued_buffer_def
      gst_buffer_new_and_alloc_def memcpy_def Let_def not_le)

lemma delivery_admitted:
  assumes "num_frames \<noteq> 0" "\<not> flushing p" "\<not> is_eos p"
    "max_bytes p = 0 \<or> queued_bytes p < max_bytes p" "alloc_ok"
  shows "spotify_music_delivery_cb format frames num_frames alloc_ok p =
           (num_frames,
            p\<lparr>queue := queue p @ [queued_buffer num_frames frames
                                      (num_frames * 2 * channels format) (buffer_timestamp p)],
              queued_bytes := queued_bytes p + ucast (num_frames * 2 * channels format),
              buffer_timestamp := buffer_timestamp p
                 + gst_util_uint64_scale (ucast num_frames) GST_SECOND 44100,
              broadcasts := Suc (broadcasts p)\<rparr>)"
  using assms
  by (simp add: spotify_music_delivery_cb_def bufsize_eq alloc_admitted Let_def)

lemma delivery_refused:
  assumes "num_frames = 0 \<or> flushing p \<or> is_eos p
    \<or> (max_bytes p \<noteq> 0 \<and> max_bytes p \<le> queued_bytes p) \<or> \<not> alloc_ok"
  shows "spotify_music_delivery_cb format frames num_frames alloc_ok p = (0, p)"
proof (cases "num_frames = 0")
  case True
  then show ?thesis
    by (simp add: spotify_music_delivery_cb_def)
next
  case False
  with assms have "flushing p \<or> is_eos p
    \<or> (max_bytes p \<noteq> 0 \<and> max_bytes p \<le> queued_bytes p) \<or> \<not> alloc_ok"
    by simp
  then show ?thesis
    by (simp add: spotify_music_delivery_cb_def alloc_refused Let_def)
qed

lemmas eval_defs = gst_spotify_src_init_def DEFAULT_PROP_MAX_BYTES_def
  gst_spotify_src_alloc_and_queue_def g_cond_broadcast_def gst_buffer_new_and_alloc_def
  memcpy_def Let_def gst_util_uint64_scale_def GST_SECOND_def bytes_of_def

lemma scenario_fields:
  "queued_bytes scenario_100 = 100 \<and> max_bytes scenario_100 = 500
     \<and> \<not> flushing scenario_100 \<and> \<not> is_eos scenario_100"
  "queued_bytes scenario_300 = 300 \<and> max_bytes scenario_300 = 500
     \<and> \<not> flushing scenario_300 \<and> \<not> is_eos scenario_300"
  "queued_bytes scenario_600 = 600 \<and> max_bytes scenario_600 = 500
     \<and> \<not> flushing scenario_600 \<and> \<not> is_eos scenario_600"
  "bytes_of (queue scenario_300) = 300"
  "bytes_of (queue scenario_600) = 600"
  by (simp_all add: scenario_600_def scenario_300_def scenario_100_def scenario_500_def
      eval_defs)

text \<open>
  C1, as the code has it. The enqueue is refused, with the state (and so
  \<open>queued_bytes\<close>) untouched, when the element is flushing, at end of stream, or when
  \<open>max_bytes\<close> is not 0 and \<open>queued_bytes\<close> has already reached it. The test is on the
  bytes queued before the call, not on the sum with the offered buffer: a buffer offered
  below the limit is admitted whatever its size. With a limit of 500 the buffers of 100,
  200 and 300 bytes are all admitted, the queue then holds 600 bytes, and the next
  enqueue is refused.
\<close>

theorem C1_enqueue_admission:
  "(flushing p \<or> is_eos p \<or> (max_bytes p \<noteq> 0 \<and> max_bytes p \<le> queued_bytes p) \<longrightarrow>
      gst_spotify_src_alloc_and_queue n d sz ok p = (False, p))
   \<and> (\<not> flushing p \<and> \<not> is_eos p \<and> (max_bytes p = 0 \<or> queued_bytes p < max_bytes p) \<and> ok \<longrightarrow>
      fst (gst_spotify_src_alloc_and_queue n d sz ok p)
      \<and> queue (snd (gst_spotify_src_alloc_and_queue n d sz ok p))
          = queue p @ [queued_buffer n d sz (buffer_timestamp p)]
      \<and> queued_bytes (snd (gst_spotify_src_alloc_and_queue n d sz ok p))
          = queued_bytes p + ucast sz)
   \<and> gst_spotify_src_alloc_and_queue 25 (replicate 100 0) 100 True scenario_500
        = (True, scenario_100)
   \<and> gst_spotify_src_alloc_and_queue 50 (replicate 200 0) 200 True scenario_100
        = (True, scenario_300)
   \<and> gst_spotify_src_alloc_and_queue 75 (replicate 300 0) 300 True scenario_300
        = (True, scenario_600)
   \<and> queued_bytes scenario_600 = 600 \<and> bytes_of (queue scenario_600) = 600
   \<and> gst_spotify_src_alloc_and_queue 1 (replicate 4 0) 4 True scenario_600
        = (False, scenario_600)"
proof -
  have refuse: "flushing p \<or> is_eos p \<or> (max_bytes p \<noteq> 0 \<and> max_bytes p \<le> queued_bytes p) \<longrightarrow>
      gst_spotify_src_alloc_and_queue n d sz ok p = (False, p)"
    by (simp add: alloc_refused)
  have admit: "\<not> flushing p \<and> \<not> is_eos p \<and> (max_bytes p = 0 \<or> queued_bytes p < max_bytes p) \<and> ok \<longrightarrow>
      fst (gst_spotify_src_alloc_and_queue n d sz ok p)
      \<and> queue (snd (gst_spotify_src_alloc_and_queue n d sz ok p))
          = queue p @ [queued_buffer n d sz (buffer_timestamp p)]
      \<and> queued_bytes (snd (gst_spotify_src_alloc_and_queue n d sz ok p))
          = queued_bytes p + ucast sz"
    by (simp add: alloc_admitted)
  have first: "gst_spotify_src_alloc_and_queue 25 (replicate 100 0) 100 True scenario_500
                 = (True, scenario_100)"
    by (simp add: scenario_100_def scenario_500_def eval_defs)
  have second: "gst_spotify_src_alloc_and_queue 50 (replicate 200 0) 200 True scenario_100
                  = (True, scenario_300)"
    by (simp add: scenario_300_def scenario_100_def scenario_500_def eval_defs)
  have third: "gst_spotify_src_alloc_and_queue 75 (replicate 300 0) 300 True scenario_300
                 = (True, scenario_600)"
    by (simp add: scenario_600_def scenario_300_def scenario_100_def scenario_500_def
        eval_defs)
  have fourth: "gst_spotify_src_alloc_and_queue 1 (replicate 4 0) 4 True scenario_600
                  = (False, scenario_600)"
    by (rule alloc_refused) (simp add: scenario_fields)
  show ?thesis
    using refuse admit first second third fourth scenario_fields(3,5) by blast
qed

theorem C1_enqueue_admission_witness:
  "(max_bytes scenario_600 \<noteq> 0 \<and> max_bytes scenario_600 \<le> queued_bytes scenario_600)
   \<and> gst_spotify_src_alloc_and_queue 1 (replicate 4 0) 4 True scenario_600
        = (False, scenario_600)
   \<and> (\<not> flushing scenario_300 \<and> \<not> is_eos scenario_300
        \<and> queued_bytes scenario_300 < max_bytes scenario_300)
   \<and> fst (gst_spotify_src_alloc_and_queue 75 (replicate 300 0) 300 True scenario_300)
   \<and> queued_bytes
        (snd (gst_spotify_src_alloc_and_queue 75 (replicate 300 0) 300 True scenario_300))
      = 600"
  using C1_enqueue_admission [of scenario_600 1 "replicate 4 0" 4 True]
    C1_enqueue_admission [of scenario_300 75 "replicate 300 0" 300 True]
  by (simp add: scenario_fields)

text \<open>
  Against C1 as stated: with 300 bytes queued and a limit of 500, a buffer of 300 bytes
  would bring the queue to 600 bytes, above the limit, and it is admitted all the same.
\<close>

theorem C1_counterexample:
  "unat (max_bytes scenario_300) < unat (queued_bytes scenario_300) + unat (300 :: guint)
   \<and> gst_spotify_src_alloc_and_queue 75 (replicate 300 0) 300 True scenario_300
        = (True, scenario_600)
   \<and> queued_bytes scenario_600 = 600 \<and> bytes_of (queue scenario_600) = 600"
  by (simp add: scenario_600_def scenario_300_def scenario_100_def scenario_500_def eval_defs)

subsection \<open>What the delivery callback queues\<close>

text \<open>
  C3, as the code has it. A delivery of \<open>num_frames \<noteq> 0\<close> frames that is admitted
  reports all frames consumed and appends one buffer: its size is
  \<open>num_frames * channels * 2\<close> cut to 32 bits, its duration is
  \<open>num_frames * 1000000000 / 44100\<close> nanoseconds rounded down, whatever sample rate the
  format announces, its timestamp is the running position, and the running position
  moves on by that duration (in 64-bit arithmetic).
\<close>

theorem C3_delivery_buffer:
  fixes format :: sp_audioformat and frames num_frames alloc_ok p
  defines "res \<equiv> spotify_music_delivery_cb format frames num_frames alloc_ok p"
  defines "buf \<equiv> last (queue (snd res))"
  assumes "num_frames \<noteq> 0" "\<not> flushing p" "\<not> is_eos p"
    "max_bytes p = 0 \<or> queued_bytes p < max_bytes p" "alloc_ok"
  shows "fst res = num_frames \<and> queue (snd res) = queue p @ [buf]
    \<and> unat (GST_BUFFER_SIZE buf) = unat num_frames * unat (channels format) * 2 mod 2 ^ 32
    \<and> unat (GST_BUFFER_DURATION buf) = unat num_frames * 1000000000 div 44100
    \<and> GST_BUFFER_TIMESTAMP buf = buffer_timestamp p
    \<and> buffer_timestamp (snd res) = buffer_timestamp p + GST_BUFFER_DURATION buf
    \<and> queued_bytes (snd res) = queued_bytes p + ucast (GST_BUFFER_SIZE buf)"
proof -
  have sz: "unat (num_frames * 2 * channels format)
              = unat num_frames * unat (channels format) * 2 mod 2 ^ 32"
    by (simp add: unat_word_ariths mod_mult_left_eq mod_mult_right_eq mult_ac)
  show ?thesis
    unfolding res_def buf_def delivery_admitted [OF assms(3-7)]
    by (simp add: queued_buffer_def scale_frames sz)
qed

theorem C3_delivery_buffer_witness:
  "fst (spotify_music_delivery_cb stereo_48000 (replicate 1920 0) 480 True
          gst_spotify_src_init) = 480
   \<and> unat (GST_BUFFER_SIZE (last (queue (snd
        (spotify_music_delivery_cb stereo_48000 (replicate 1920 0) 480 True
           gst_spotify_src_init))))) = 1920
   \<and> unat (GST_BUFFER_DURATION (last (queue (snd
        (spotify_music_delivery_cb stereo_48000 (replicate 1920 0) 480 True
           gst_spotify_src_init))))) = 10884353"
  using C3_delivery_buffer [of 480 gst_spotify_src_init True stereo_48000 "replicate 1920 0"]
  by (simp add: gst_spotify_src_init_def DEFAULT_PROP_MAX_BYTES_def stereo_48000_def)

text \<open>
  Against C3 as stated: 480 frames delivered at 48000 Hz last 10 ms, that is 10000000 ns,
  and the buffer queued for them has a duration of 10884353 ns.
\<close>

theorem C3_counterexample:
  "unat (GST_BUFFER_DURATION (last (queue (snd
        (spotify_music_delivery_cb stereo_48000 (replicate 1920 0) 480 True
           gst_spotify_src_init))))) = 10884353
   \<and> 480 * 1000000000 div unat (sample_rate stereo_48000) = 10000000"
  by (simp add: spotify_music_delivery_cb_def stereo_48000_def eval_defs)

subsection \<open>Flushing\<close>

lemma create_flushing:
  "flushing p \<Longrightarrow> gst_spotify_src_create p = (Some GST_FLOW_WRONG_STATE, p)"
  by (simp add: gst_spotify_src_create_def)

lemma unlock_eq:
  "gst_spotify_src_unlock p = (True, p\<lparr>flushing := True, broadcasts := Suc (broadcasts p)\<rparr>)"
  by (simp add: gst_spotify_src_unlock_def g_cond_broadcast_def)

text \<open>
  C4, as the code has it. After \<^verbatim>\<open>unlock\<close> has set the flushing flag, a call of
  \<^verbatim>\<open>create\<close> returns the flushing result and no buffer, and it leaves the state as it
  is: \<^verbatim>\<open>unlock\<close> and \<^verbatim>\<open>create\<close> keep the queue and \<open>queued_bytes\<close> as they were, so
  the buffers stay queued.
\<close>

theorem C4_create_while_flushing:
  "(flushing p \<longrightarrow> gst_spotify_src_create p = (Some GST_FLOW_WRONG_STATE, p))
   \<and> flushing (snd (gst_spotify_src_unlock p))
   \<and> gst_spotify_src_create (snd (gst_spotify_src_unlock p))
        = (Some GST_FLOW_WRONG_STATE, snd (gst_spotify_src_unlock p))
   \<and> queue (snd (gst_spotify_src_unlock p)) = queue p
   \<and> queued_bytes (snd (gst_spotify_src_unlock p)) = queued_bytes p"
  by (simp add: create_flushing unlock_eq)

theorem C4_create_while_flushing_witness:
  "flushing flushing_one_queued
   \<and> gst_spotify_src_create flushing_one_queued
        = (Some GST_FLOW_WRONG_STATE, flushing_one_queued)
   \<and> length (queue flushing_one_queued) = 1 \<and> queued_bytes flushing_one_queued = 1764"
  using C4_create_while_flushing [of flushing_one_queued]
  by (simp add: flushing_one_queued_def one_queued_def unlock_eq eval_defs)

text \<open>
  Against C4 as stated: with one buffer queued, \<^verbatim>\<open>unlock\<close> and then \<^verbatim>\<open>create\<close> give the
  flushing result, but the queue is not empty afterwards and \<open>queued_bytes\<close> is not 0.
\<close>

theorem C4_counterexample:
  "queue one_queued \<noteq> []
   \<and> fst (gst_spotify_src_create (snd (gst_spotify_src_unlock one_queued)))
        = Some GST_FLOW_WRONG_STATE
   \<and> \<not> (queue (snd (gst_spotify_src_create (snd (gst_spotify_src_unlock one_queued)))) = []
        \<and> queued_bytes (snd (gst_spotify_src_create (snd (gst_spotify_src_unlock one_queued))))
            = 0)"
  by (simp add: create_flushing unlock_eq one_queued_def eval_defs)

subsection \<open>What each call leaves alone\<close>

lemmas session_defs = spotify_create_def spotify_login_def spotify_play_def spotify_seek_def
  spotify_stop_def spotify_destroy_def client_call_def

lemma start_fields:
  "queue (snd (gst_spotify_src_start r p)) = queue p"
  "queued_bytes (snd (gst_spotify_src_start r p)) = queued_bytes p"
  "max_bytes (snd (gst_spotify_src_start r p)) = max_bytes p"
  "caps (snd (gst_spotify_src_start r p)) = caps p"
  "is_eos (snd (gst_spotify_src_start r p)) = is_eos p"
  "is_first_seek (snd (gst_spotify_src_start r p))"
  "\<not> flushing (snd (gst_spotify_src_start r p))"
  "buffer_timestamp (snd (gst_spotify_src_start r p)) = 0"
  by (simp_all add: gst_spotify_src_start_def session_defs Let_def)

lemma stop_fields:
  "queue (snd (gst_spotify_src_stop r p)) = []"
  "queued_bytes (snd (gst_spotify_src_stop r p)) = 0"
  "max_bytes (snd (gst_spotify_src_stop r p)) = max_bytes p"
  "caps (snd (gst_spotify_src_stop r p)) = caps p"
  "\<not> is_eos (snd (gst_spotify_src_stop r p))"
  "is_first_seek (snd (gst_spotify_src_stop r p)) = is_first_seek p"
  "flushing (snd (gst_spotify_src_stop r p))"
  "buffer_timestamp (snd (gst_spotify_src_stop r p)) = buffer_timestamp p"
  by (simp_all add: gst_spotify_src_stop_def gst_spotify_src_flush_queued_def session_defs Let_def)

lemma seek_first:
  "is_first_seek p \<Longrightarrow> gst_spotify_src_do_seek 0 ret p = (True, p\<lparr>is_first_seek := False\<rparr>)"
  by (simp add: gst_spotify_src_do_seek_def)

lemma seek_failed:
  "\<not> (is_first_seek p \<and> pos = 0) \<Longrightarrow> ret \<noteq> SP_ERROR_OK \<Longrightarrow>
   gst_spotify_src_do_seek pos ret p =
     (False, p\<lparr>client_calls := client_calls p
                 @ [spw_session_player_seek (word_of_int (sint pos sdiv GST_MSECOND))]\<rparr>)"
  by (auto simp: gst_spotify_src_do_seek_def session_defs)

lemma seek_done:
  "\<not> (is_first_seek p \<and> pos = 0) \<Longrightarrow>
   gst_spotify_src_do_seek pos SP_ERROR_OK p =
     (True, p\<lparr>client_calls := client_calls p
                 @ [spw_session_player_seek (word_of_int (sint pos sdiv GST_MSECOND))],
               queue := [], queued_bytes := 0, is_eos := False, buffer_timestamp := pos\<rparr>)"
  by (auto simp: gst_spotify_src_do_seek_def gst_spotify_src_flush_queued_def session_defs)

subsection \<open>End of stream\<close>

lemma eos_eq:
  "\<not> flushing p \<Longrightarrow>
   gst_spotify_src_end_of_stream p = p\<lparr>is_eos := True, broadcasts := Suc (broadcasts p)\<rparr>"
  "flushing p \<Longrightarrow> gst_spotify_src_end_of_stream p = p"
  by (simp_all add: gst_spotify_src_end_of_stream_def g_cond_broadcast_def)

lemma create_eos:
  "is_eos p \<Longrightarrow> \<not> flushing p \<Longrightarrow> queue p = [] \<Longrightarrow>
   gst_spotify_src_create p = (Some GST_FLOW_UNEXPECTED, p)
   \<and> create_loop p = (Some GST_FLOW_UNEXPECTED, p)"
  by (simp add: gst_spotify_src_create_def create_loop_def)

text \<open>
  C5, as the code has it. The end-of-track callback is \<^verbatim>\<open>gst_spotify_src_end_of_stream\<close>.
  When the element is not flushing it sets the end-of-stream flag, broadcasts once on
  the queue's condition variable and changes nothing else, and with an empty queue the
  pull loop then returns the end-of-stream result. When the element is flushing the
  request is refused: no flag is set, nothing is broadcast, the state stays as it is.
\<close>

theorem C5_end_of_stream:
  "spotify_end_of_track_cb p = gst_spotify_src_end_of_stream p
   \<and> (\<not> flushing p \<longrightarrow>
        gst_spotify_src_end_of_stream p = p\<lparr>is_eos := True, broadcasts := Suc (broadcasts p)\<rparr>)
   \<and> (flushing p \<longrightarrow> gst_spotify_src_end_of_stream p = p)
   \<and> (\<not> flushing p \<and> queue p = [] \<longrightarrow>
        create_loop (gst_spotify_src_end_of_stream p)
          = (Some GST_FLOW_UNEXPECTED, gst_spotify_src_end_of_stream p)
        \<and> gst_spotify_src_create (gst_spotify_src_end_of_stream p)
          = (Some GST_FLOW_UNEXPECTED, gst_spotify_src_end_of_stream p))"
  by (simp add: spotify_end_of_track_cb_def eos_eq create_eos)

theorem C5_end_of_stream_witness:
  "\<not> flushing gst_spotify_src_init \<and> queue gst_spotify_src_init = []
   \<and> gst_spotify_src_end_of_stream gst_spotify_src_init
        = gst_spotify_src_init\<lparr>is_eos := True,
            broadcasts := Suc (broadcasts gst_spotify_src_init)\<rparr>
   \<and> gst_spotify_src_create (gst_spotify_src_end_of_stream gst_spotify_src_init)
        = (Some GST_FLOW_UNEXPECTED, gst_spotify_src_end_of_stream gst_spotify_src_init)
   \<and> flushing unlocked_init
   \<and> gst_spotify_src_end_of_stream unlocked_init = unlocked_init"
proof -
  have live: "\<not> flushing gst_spotify_src_init \<and> queue gst_spotify_src_init = []"
    by (simp add: gst_spotify_src_init_def)
  have locked: "flushing unlocked_init"
    by (simp add: unlocked_init_def unlock_eq)
  show ?thesis
    using live locked C5_end_of_stream [of gst_spotify_src_init]
      C5_end_of_stream [of unlocked_init]
    by blast
qed

text \<open>
  Against C5 as stated: in the state after \<^verbatim>\<open>unlock\<close> the end-of-stream request leaves
  the flag unset and makes no broadcast.
\<close>

theorem C5_counterexample:
  "\<not> is_eos unlocked_init
   \<and> \<not> is_eos (gst_spotify_src_end_of_stream unlocked_init)
   \<and> broadcasts (gst_spotify_src_end_of_stream unlocked_init) = broadcasts unlocked_init"
  by (simp add: unlocked_init_def unlock_eq gst_spotify_src_init_def eos_eq)

lemma step_blocked: "wedged s \<Longrightarrow> takes_mutex x \<Longrightarrow> step x s = (s, Silent)"
  by (simp add: step_def)

lemma step_runs: "\<not> (wedged s \<and> takes_mutex x) \<Longrightarrow> step x s = perform x s"
  by (auto simp: step_def)

lemma src_perform:
  "src (fst (perform (Start r) s)) = snd (gst_spotify_src_start r (src s))"
  "src (fst (perform (Stop q) s)) = snd (gst_spotify_src_stop q (src s))"
  "src (fst (perform Unlock s)) = snd (gst_spotify_src_unlock (src s))"
  "src (fst (perform UnlockStop s)) = snd (gst_spotify_src_unlock_stop (src s))"
  "src (fst (perform (DoSeek pos ret) s)) = snd (gst_spotify_src_do_seek pos ret (src s))"
  "src (fst (perform Create s)) = snd (gst_spotify_src_create (src s))"
  "src (fst (perform Wake s)) = (if waiters s = 0 then src s else snd (create_loop (src s)))"
  "src (fst (perform (MusicDelivery format frames num_frames alloc_ok) s))
     = snd (spotify_music_delivery_cb format frames num_frames alloc_ok (src s))"
  "src (fst (perform (AllocAndQueue n d sz ok) s))
     = snd (gst_spotify_src_alloc_and_queue n d sz ok (src s))"
  "src (fst (perform EndOfTrack s)) = spotify_end_of_track_cb (src s)"
  "src (fst (perform FlushQueued s)) = gst_spotify_src_flush_queued (src s)"
  by (simp_all split: prod.splits option.splits bool.splits)

lemma unlock_fields:
  "queue (snd (gst_spotify_src_unlock p)) = queue p"
  "queued_bytes (snd (gst_spotify_src_unlock p)) = queued_bytes p"
  "max_bytes (snd (gst_spotify_src_unlock p)) = max_bytes p"
  "caps (snd (gst_spotify_src_unlock p)) = caps p"
  "is_eos (snd (gst_spotify_src_unlock p)) = is_eos p"
  "is_first_seek (snd (gst_spotify_src_unlock p)) = is_first_seek p"
  "buffer_timestamp (snd (gst_spotify_src_unlock p)) = buffer_timestamp p"
  "queue (snd (gst_spotify_src_unlock_stop p)) = queue p"
  "queued_bytes (snd (gst_spotify_src_unlock_stop p)) = queued_bytes p"
  "max_bytes (snd (gst_spotify_src_unlock_stop p)) = max_bytes p"
  "caps (snd (gst_spotify_src_unlock_stop p)) = caps p"
  "is_eos (snd (gst_spotify_src_unlock_stop p)) = is_eos p"
  "is_first_seek (snd (gst_spotify_src_unlock_stop p)) = is_first_seek p"
  "buffer_timestamp (snd (gst_spotify_src_unlock_stop p)) = buffer_timestamp p"
  by (simp_all add: gst_spotify_src_unlock_def gst_spotify_src_unlock_stop_def
      g_cond_broadcast_def)

lemma eos_fields:
  "queue (spotify_end_of_track_cb p) = queue p"
  "queued_bytes (spotify_end_of_track_cb p) = queued_bytes p"
  "max_bytes (spotify_end_of_track_cb p) = max_bytes p"
  "caps (spotify_end_of_track_cb p) = caps p"
  "is_eos p \<Longrightarrow> is_eos (spotify_end_of_track_cb p)"
  "is_first_seek (spotify_end_of_track_cb p) = is_first_seek p"
  "buffer_timestamp (spotify_end_of_track_cb p) = buffer_timestamp p"
  by (simp_all add: spotify_end_of_track_cb_def gst_spotify_src_end_of_stream_def
      g_cond_broadcast_def)

lemma flush_fields:
  "queue (gst_spotify_src_flush_queued p) = []"
  "queued_bytes (gst_spotify_src_flush_queued p) = 0"
  "max_bytes (gst_spotify_src_flush_queued p) = max_bytes p"
  "caps (gst_spotify_src_flush_queued p) = caps p"
  "is_eos (gst_spotify_src_flush_queued p) = is_eos p"
  "is_first_seek (gst_spotify_src_flush_queued p) = is_first_seek p"
  "buffer_timestamp (gst_spotify_src_flush_queued p) = buffer_timestamp p"
  by (simp_all add: gst_spotify_src_flush_queued_def)

lemma create_loop_fields:
  "max_bytes (snd (create_loop p)) = max_bytes p"
  "caps (snd (create_loop p)) = caps p"
  "is_eos (snd (create_loop p)) = is_eos p"
  "is_first_seek (snd (create_loop p)) = is_first_seek p"
  "buffer_timestamp (snd (create_loop p)) = buffer_timestamp p"
  by (simp_all add: create_loop_def g_cond_broadcast_def split: list.splits)

lemma create_fields:
  "max_bytes (snd (gst_spotify_src_create p)) = max_bytes p"
  "caps (snd (gst_spotify_src_create p)) = caps p"
  "is_eos (snd (gst_spotify_src_create p)) = is_eos p"
  "is_first_seek (snd (gst_spotify_src_create p)) = is_first_seek p"
  "buffer_timestamp (snd (gst_spotify_src_create p)) = buffer_timestamp p"
  by (simp_all add: gst_spotify_src_create_def create_loop_fields)

lemma alloc_fields:
  "max_bytes (snd (gst_spotify_src_alloc_and_queue n d sz ok p)) = max_bytes p"
  "caps (snd (gst_spotify_src_alloc_and_queue n d sz ok p)) = caps p"
  "is_eos (snd (gst_spotify_src_alloc_and_queue n d sz ok p)) = is_eos p"
  "is_first_seek (snd (gst_spotify_src_alloc_and_queue n d sz ok p)) = is_first_seek p"
  by (simp_all add: gst_spotify_src_alloc_and_queue_def g_cond_broadcast_def Let_def)

lemma snd_delivery:
  "snd (spotify_music_delivery_cb format frames n ok p) =
     (if n = 0 then p
      else snd (gst_spotify_src_alloc_and_queue n frames (n * 2 * channels format) ok p))"
  by (simp add: spotify_music_delivery_cb_def Let_def bufsize_eq split: prod.splits bool.splits)

lemma delivery_fields:
  "max_bytes (snd (spotify_music_delivery_cb format frames n ok p)) = max_bytes p"
  "caps (snd (spotify_music_delivery_cb format frames n ok p)) = caps p"
  "is_eos (snd (spotify_music_delivery_cb format frames n ok p)) = is_eos p"
  "is_first_seek (snd (spotify_music_delivery_cb format frames n ok p)) = is_first_seek p"
  by (simp_all add: snd_delivery alloc_fields)

lemma seek_fields:
  "max_bytes (snd (gst_spotify_src_do_seek pos ret p)) = max_bytes p"
  "caps (snd (gst_spotify_src_do_seek pos ret p)) = caps p"
  "pos \<noteq> 0 \<Longrightarrow> is_first_seek (snd (gst_spotify_src_do_seek pos ret p)) = is_first_seek p"
  "\<not> is_first_seek p \<Longrightarrow> \<not> is_first_seek (snd (gst_spotify_src_do_seek pos ret p))"
  "ret \<noteq> SP_ERROR_OK \<Longrightarrow> is_eos (snd (gst_spotify_src_do_seek pos ret p)) = is_eos p"
  "ret \<noteq> SP_ERROR_OK \<Longrightarrow> queue (snd (gst_spotify_src_do_seek pos ret p)) = queue p"
  "ret \<noteq> SP_ERROR_OK \<Longrightarrow>
     queued_bytes (snd (gst_spotify_src_do_seek pos ret p)) = queued_bytes p"
  by (simp_all add: gst_spotify_src_do_seek_def gst_spotify_src_flush_queued_def session_defs)

lemma perform_first_seek_kept:
  "is_first_seek (src s) \<Longrightarrow> \<not> seeks_to_zero x \<Longrightarrow> is_first_seek (src (fst (perform x s)))"
  by (cases x)
    (simp_all del: perform.simps add: src_perform start_fields stop_fields unlock_fields eos_fields flush_fields
      create_loop_fields create_fields alloc_fields delivery_fields seek_fields)

lemma perform_first_seek_clear:
  "\<not> is_first_seek (src s) \<Longrightarrow> \<not> is_start x \<Longrightarrow> \<not> is_first_seek (src (fst (perform x s)))"
  by (cases x)
    (simp_all del: perform.simps add: src_perform start_fields stop_fields unlock_fields eos_fields flush_fields
      create_loop_fields create_fields alloc_fields delivery_fields seek_fields)

lemma exec_first_seek_kept:
  "is_first_seek (src s) \<Longrightarrow> \<forall>x \<in> set ops. \<not> seeks_to_zero x \<Longrightarrow>
   is_first_seek (src (exec ops s))"
proof (induction ops arbitrary: s)
  case Nil
  then show ?case by simp
next
  case (Cons x xs)
  have "is_first_seek (src (fst (step x s)))"
    using Cons.prems by (cases "wedged s \<and> takes_mutex x") (simp_all add: step_def perform_first_seek_kept)
  then show ?case
    using Cons by simp
qed

lemma exec_first_seek_clear:
  "\<not> is_first_seek (src s) \<Longrightarrow> \<forall>x \<in> set ops. \<not> is_start x \<Longrightarrow>
   \<not> is_first_seek (src (exec ops s))"
proof (induction ops arbitrary: s)
  case Nil
  then show ?case by simp
next
  case (Cons x xs)
  have "\<not> is_first_seek (src (fst (step x s)))"
    using Cons.prems by (cases "wedged s \<and> takes_mutex x") (simp_all add: step_def perform_first_seek_clear)
  then show ?case
    using Cons by simp
qed

lemmas run_defs = step_def boot_def gst_spotify_src_init_def DEFAULT_PROP_MAX_BYTES_def
  gst_spotify_src_start_def session_defs all_ok_def

lemma playing_eq:
  "playing = \<lparr>src = gst_spotify_src_init
      \<lparr>size_priv := 180000000000, started := True, is_first_seek := True,
       client_calls := [spw_session_create, spw_session_login, spw_session_player_load,
                        spw_session_player_play True]\<rparr>,
    waiters = 0, wedged = False\<rparr>"
  by (simp add: playing_def run_defs GST_MSECOND_def)

lemma playing_fields:
  "is_first_seek (src playing)" "\<not> wedged playing" "queue (src playing) = []"
  "\<not> flushing (src playing)" "\<not> is_eos (src playing)" "buffer_timestamp (src playing) = 0"
  "max_bytes (src playing) = 1000000" "queued_bytes (src playing) = 0"
  "caps (src playing) = None"
  by (simp_all add: playing_eq gst_spotify_src_init_def DEFAULT_PROP_MAX_BYTES_def)

subsection \<open>The first seek\<close>

lemma seek_normal:
  "\<not> is_first_seek q \<Longrightarrow>
   fst (gst_spotify_src_do_seek pos ret q) = (ret = SP_ERROR_OK)
   \<and> client_calls (snd (gst_spotify_src_do_seek pos ret q))
       = client_calls q @ [spw_session_player_seek (word_of_int (sint pos sdiv GST_MSECOND))]
   \<and> \<not> is_first_seek (snd (gst_spotify_src_do_seek pos ret q))"
  by (simp add: gst_spotify_src_do_seek_def gst_spotify_src_flush_queued_def session_defs)

lemma seek_path:
  "\<not> (is_first_seek q \<and> pos = 0) \<Longrightarrow>
   gst_spotify_src_do_seek pos ret q =
     (if ret = SP_ERROR_OK
      then (True, q\<lparr>client_calls := client_calls q
                      @ [spw_session_player_seek (word_of_int (sint pos sdiv GST_MSECOND))],
                    queue := [], queued_bytes := 0, is_eos := False,
                    buffer_timestamp := pos\<rparr>)
      else (False, q\<lparr>client_calls := client_calls q
                      @ [spw_session_player_seek (word_of_int (sint pos sdiv GST_MSECOND))]\<rparr>))"
  by (cases "ret = SP_ERROR_OK") (simp_all add: seek_done seek_failed)

text \<open>
  C10. \<^verbatim>\<open>start\<close> sets the first-seek flag (whatever the session commands answer), and
  the flag stays set through every call that is not a seek to 0. With the flag set, a
  seek to 0 returns success and only clears the flag: no command is issued to the
  client, queue, end-of-stream flag and timestamp are untouched. With the flag clear,
  every seek, to 0 or elsewhere, takes the normal path in full: it issues the client's
  seek command and returns its outcome; when the client accepts, the queue is flushed,
  \<open>queued_bytes\<close> is 0, the end-of-stream flag is cleared and the running position is
  the seek target, and when the client refuses, nothing but the record of issued
  commands changes. The flag then stays clear through every call but a new
  \<^verbatim>\<open>start\<close>. A seek to another position than 0 while the flag is set takes the same
  normal path and leaves the flag set.
\<close>

theorem C10_first_seek:
  "is_first_seek (snd (gst_spotify_src_start r p))
   \<and> (is_first_seek (src s) \<and> (\<forall>x \<in> set ops. \<not> seeks_to_zero x) \<longrightarrow>
        is_first_seek (src (exec ops s)))
   \<and> (is_first_seek q \<longrightarrow>
        gst_spotify_src_do_seek 0 ret q = (True, q\<lparr>is_first_seek := False\<rparr>))
   \<and> (\<not> is_first_seek q \<longrightarrow>
        gst_spotify_src_do_seek pos ret q =
          (if ret = SP_ERROR_OK
           then (True, q\<lparr>client_calls := client_calls q
                      @ [spw_session_player_seek (word_of_int (sint pos sdiv GST_MSECOND))],
                    queue := [], queued_bytes := 0, is_eos := False,
                    buffer_timestamp := pos\<rparr>)
           else (False, q\<lparr>client_calls := client_calls q
                      @ [spw_session_player_seek (word_of_int (sint pos sdiv GST_MSECOND))]\<rparr>))
        \<and> fst (gst_spotify_src_do_seek pos ret q) = (ret = SP_ERROR_OK)
        \<and> client_calls (snd (gst_spotify_src_do_seek pos ret q))
            = client_calls q
              @ [spw_session_player_seek (word_of_int (sint pos sdiv GST_MSECOND))]
        \<and> \<not> is_first_seek (snd (gst_spotify_src_do_seek pos ret q)))
   \<and> (\<not> is_first_seek (src s) \<and> (\<forall>x \<in> set ops. \<not> is_start x) \<longrightarrow>
        \<not> is_first_seek (src (exec ops s)))
   \<and> (is_first_seek q \<and> pos \<noteq> 0 \<longrightarrow>
        gst_spotify_src_do_seek pos ret q =
          (if ret = SP_ERROR_OK
           then (True, q\<lparr>client_calls := client_calls q
                      @ [spw_session_player_seek (word_of_int (sint pos sdiv GST_MSECOND))],
                    queue := [], queued_bytes := 0, is_eos := False,
                    buffer_timestamp := pos\<rparr>)
           else (False, q\<lparr>client_calls := client_calls q
                      @ [spw_session_player_seek (word_of_int (sint pos sdiv GST_MSECOND))]\<rparr>)))"
proof -
  have clear: "\<not> is_first_seek q \<longrightarrow>
        gst_spotify_src_do_seek pos ret q =
          (if ret = SP_ERROR_OK
           then (True, q\<lparr>client_calls := client_calls q
                      @ [spw_session_player_seek (word_of_int (sint pos sdiv GST_MSECOND))],
                    queue := [], queued_bytes := 0, is_eos := False,
                    buffer_timestamp := pos\<rparr>)
           else (False, q\<lparr>client_calls := client_calls q
                      @ [spw_session_player_seek (word_of_int (sint pos sdiv GST_MSECOND))]\<rparr>))"
    using seek_path [of q pos ret] by blast
  have elsewhere: "is_first_seek q \<and> pos \<noteq> 0 \<longrightarrow>
        gst_spotify_src_do_seek pos ret q =
          (if ret = SP_ERROR_OK
           then (True, q\<lparr>client_calls := client_calls q
                      @ [spw_session_player_seek (word_of_int (sint pos sdiv GST_MSECOND))],
                    queue := [], queued_bytes := 0, is_eos := False,
                    buffer_timestamp := pos\<rparr>)
           else (False, q\<lparr>client_calls := client_calls q
                      @ [spw_session_player_seek (word_of_int (sint pos sdiv GST_MSECOND))]\<rparr>))"
    using seek_path [of q pos ret] by blast
  show ?thesis
    using start_fields(6) [of r p] exec_first_seek_kept [of s ops] seek_first [of q ret]
      seek_normal [of q pos ret] exec_first_seek_clear [of s ops] clear elsewhere
    by blast
qed

lemma seek_again_fields:
  "\<not> is_first_seek (src seek_again)" "queue (src seek_again) \<noteq> []"
  "queued_bytes (src seek_again) = 1764" "buffer_timestamp (src seek_again) = 10000000"
  "client_calls (src seek_again) = client_calls (src playing)"
  by (simp_all add: seek_again_def step_def playing_eq gst_spotify_src_do_seek_def
      spotify_music_delivery_cb_def stereo_44100_def eval_defs)

theorem C10_first_seek_witness:
  "is_first_seek (src playing)
   \<and> is_first_seek (src (exec [MusicDelivery stereo_44100 (replicate 1764 0) 441 True,
                                DoSeek 5000000 (SP_ERROR_OTHER 1)] playing))
   \<and> gst_spotify_src_do_seek 0 SP_ERROR_OK (src playing)
        = (True, (src playing)\<lparr>is_first_seek := False\<rparr>)
   \<and> \<not> is_first_seek (src seek_again)
   \<and> queue (src seek_again) \<noteq> [] \<and> buffer_timestamp (src seek_again) = 10000000
   \<and> gst_spotify_src_do_seek 0 SP_ERROR_OK (src seek_again)
        = (True, (src seek_again)\<lparr>client_calls := client_calls (src seek_again)
                                      @ [spw_session_player_seek 0],
                                    queue := [], queued_bytes := 0, is_eos := False,
                                    buffer_timestamp := 0\<rparr>)
   \<and> \<not> is_first_seek (src (exec [Unlock, UnlockStop, DoSeek 0 SP_ERROR_OK] seek_again))
   \<and> gst_spotify_src_do_seek 5000000 (SP_ERROR_OTHER 1) (src playing)
        = (False, (src playing)\<lparr>client_calls := client_calls (src playing)
                                      @ [spw_session_player_seek 5]\<rparr>)"
proof -
  have there: "(5000000 :: gint64) \<noteq> 0 \<and> SP_ERROR_OTHER 1 \<noteq> SP_ERROR_OK"
    by simp
  have elsewhere: "gst_spotify_src_do_seek 5000000 (SP_ERROR_OTHER 1) (src playing)
        = (False, (src playing)\<lparr>client_calls := client_calls (src playing)
                                      @ [spw_session_player_seek 5]\<rparr>)"
    using C10_first_seek [where q = "src playing" and pos = 5000000
        and ret = "SP_ERROR_OTHER 1"] playing_fields(1) there
    by (simp add: GST_MSECOND_def signed_divide_int_def)
  have zero: "(word_of_int (sint (0 :: gint64) sdiv GST_MSECOND) :: gint) = 0"
    by (simp add: GST_MSECOND_def)
  note early = C10_first_seek [where s = playing and q = "src playing" and ret = SP_ERROR_OK
        and ops = "[MusicDelivery stereo_44100 (replicate 1764 0) 441 True,
                    DoSeek 5000000 (SP_ERROR_OTHER 1)]"]
  note late = C10_first_seek [where s = seek_again and q = "src seek_again"
        and ret = SP_ERROR_OK and pos = 0
        and ops = "[Unlock, UnlockStop, DoSeek 0 SP_ERROR_OK]"]
  have kept: "is_first_seek (src (exec [MusicDelivery stereo_44100 (replicate 1764 0) 441 True,
                                DoSeek 5000000 (SP_ERROR_OTHER 1)] playing))"
    using early playing_fields(1) by simp
  have swallowed: "gst_spotify_src_do_seek 0 SP_ERROR_OK (src playing)
        = (True, (src playing)\<lparr>is_first_seek := False\<rparr>)"
    using early playing_fields(1) by blast
  have normal: "gst_spotify_src_do_seek 0 SP_ERROR_OK (src seek_again)
        = (True, (src seek_again)\<lparr>client_calls := client_calls (src seek_again)
                                      @ [spw_session_player_seek 0],
                                    queue := [], queued_bytes := 0, is_eos := False,
                                    buffer_timestamp := 0\<rparr>)"
    using late seek_again_fields(1) by (simp add: zero)
  have stays: "\<not> is_first_seek (src (exec [Unlock, UnlockStop, DoSeek 0 SP_ERROR_OK] seek_again))"
    using late seek_again_fields(1) by simp
  show ?thesis
    using playing_fields(1) kept swallowed seek_again_fields(1,2,4) normal stays elsewhere
    by blast
qed

text \<open>
  C9. When the client's seek command fails, \<^verbatim>\<open>do_seek\<close> leaves the queue,
  \<open>queued_bytes\<close>, the end-of-stream flag, the running timestamp and the flushing flag
  as they were; and unless the request is the swallowed first seek to 0 (for which no
  command is issued at all), the command was issued, the call returns failure, and the
  record of issued commands is the only thing that changed.
\<close>

theorem C9_failed_seek:
  assumes "ret \<noteq> SP_ERROR_OK"
  shows "queue (snd (gst_spotify_src_do_seek pos ret p)) = queue p
    \<and> queued_bytes (snd (gst_spotify_src_do_seek pos ret p)) = queued_bytes p
    \<and> is_eos (snd (gst_spotify_src_do_seek pos ret p)) = is_eos p
    \<and> buffer_timestamp (snd (gst_spotify_src_do_seek pos ret p)) = buffer_timestamp p
    \<and> flushing (snd (gst_spotify_src_do_seek pos ret p)) = flushing p
    \<and> (\<not> (is_first_seek p \<and> pos = 0) \<longrightarrow>
         gst_spotify_src_do_seek pos ret p =
           (False, p\<lparr>client_calls := client_calls p
               @ [spw_session_player_seek (word_of_int (sint pos sdiv GST_MSECOND))]\<rparr>))"
proof (cases "is_first_seek p \<and> pos = 0")
  case True
  then show ?thesis by (simp add: seek_first)
next
  case False
  then show ?thesis using assms by (simp add: seek_failed)
qed

theorem C9_failed_seek_witness:
  "SP_ERROR_OTHER 1 \<noteq> SP_ERROR_OK
   \<and> \<not> (is_first_seek one_queued \<and> (5000000000 :: gint64) = 0)
   \<and> gst_spotify_src_do_seek 5000000000 (SP_ERROR_OTHER 1) one_queued
        = (False, one_queued\<lparr>client_calls := [spw_session_player_seek 5000]\<rparr>)
   \<and> queued_bytes (snd (gst_spotify_src_do_seek 5000000000 (SP_ERROR_OTHER 1) one_queued))
        = 1764"
proof -
  have one: "\<not> is_first_seek one_queued \<and> client_calls one_queued = []
      \<and> queued_bytes one_queued = 1764"
    by (simp add: one_queued_def eval_defs)
  show ?thesis
    using one C9_failed_seek [of "SP_ERROR_OTHER 1" 5000000000 one_queued]
    by (simp add: GST_MSECOND_def signed_divide_int_def)
qed

subsection \<open>End of stream persists\<close>

lemma create_loop_queue:
  "queue p = [] \<Longrightarrow> queue (snd (create_loop p)) = []"
  "queue p = [] \<Longrightarrow> queued_bytes (snd (create_loop p)) = queued_bytes p"
  "queue p = [] \<Longrightarrow> queue (snd (gst_spotify_src_create p)) = []"
  "queue p = [] \<Longrightarrow> queued_bytes (snd (gst_spotify_src_create p)) = queued_bytes p"
  by (simp_all add: create_loop_def gst_spotify_src_create_def)

lemma perform_eos_kept:
  assumes "is_eos (src s)" "queue (src s) = []" "\<not> clears_eos x"
  shows "is_eos (src (fst (perform x s))) \<and> queue (src (fst (perform x s))) = []"
  using assms
  by (cases x)
    (simp_all del: perform.simps add: src_perform start_fields unlock_fields eos_fields
      flush_fields create_loop_fields create_fields alloc_fields delivery_fields seek_fields
      create_loop_queue snd_delivery alloc_refused)

lemma exec_eos_kept:
  "is_eos (src s) \<Longrightarrow> queue (src s) = [] \<Longrightarrow> \<forall>x \<in> set ops. \<not> clears_eos x \<Longrightarrow>
   is_eos (src (exec ops s)) \<and> queue (src (exec ops s)) = []"
proof (induction ops arbitrary: s)
  case Nil
  then show ?case by simp
next
  case (Cons x xs)
  have "is_eos (src (fst (step x s))) \<and> queue (src (fst (step x s))) = []"
    using Cons.prems by (cases "wedged s \<and> takes_mutex x") (simp_all add: step_def perform_eos_kept)
  then show ?case
    using Cons by simp
qed

text \<open>
  C6. At end of stream, not flushing and with an empty queue, \<^verbatim>\<open>create\<close> returns the
  end-of-stream result at once (it does not reach \<^verbatim>\<open>g_cond_wait\<close>) and leaves the
  state as it is; the same holds for a pass of the loop after a wake-up. Through any
  calls other than \<^verbatim>\<open>stop\<close> (which a fresh start has to go through) and a seek that the
  client accepts, the flag stays set and the queue stays empty, so whenever the element
  is not flushing \<^verbatim>\<open>create\<close> keeps returning the end-of-stream result. \<^verbatim>\<open>stop\<close> and
  a seek that took the normal path and succeeded clear the flag.
\<close>

theorem C6_eos_persists:
  "(is_eos p \<and> \<not> flushing p \<and> queue p = [] \<longrightarrow>
      gst_spotify_src_create p = (Some GST_FLOW_UNEXPECTED, p)
      \<and> create_loop p = (Some GST_FLOW_UNEXPECTED, p))
   \<and> (is_eos (src s) \<and> queue (src s) = [] \<and> (\<forall>x \<in> set ops. \<not> clears_eos x) \<longrightarrow>
        is_eos (src (exec ops s)) \<and> queue (src (exec ops s)) = []
        \<and> (\<not> flushing (src (exec ops s)) \<longrightarrow>
             gst_spotify_src_create (src (exec ops s))
               = (Some GST_FLOW_UNEXPECTED, src (exec ops s))))
   \<and> \<not> is_eos (snd (gst_spotify_src_stop q p))
   \<and> (\<not> (is_first_seek p \<and> pos = 0) \<longrightarrow>
        \<not> is_eos (snd (gst_spotify_src_do_seek pos SP_ERROR_OK p)))"
proof -
  have now: "is_eos p \<and> \<not> flushing p \<and> queue p = [] \<longrightarrow>
      gst_spotify_src_create p = (Some GST_FLOW_UNEXPECTED, p)
      \<and> create_loop p = (Some GST_FLOW_UNEXPECTED, p)"
    by (simp add: create_eos)
  have later: "is_eos (src s) \<and> queue (src s) = [] \<and> (\<forall>x \<in> set ops. \<not> clears_eos x) \<longrightarrow>
        is_eos (src (exec ops s)) \<and> queue (src (exec ops s)) = []
        \<and> (\<not> flushing (src (exec ops s)) \<longrightarrow>
             gst_spotify_src_create (src (exec ops s))
               = (Some GST_FLOW_UNEXPECTED, src (exec ops s)))"
    using exec_eos_kept [of s ops] create_eos [of "src (exec ops s)"] by blast
  have seek: "\<not> (is_first_seek p \<and> pos = 0) \<longrightarrow>
        \<not> is_eos (snd (gst_spotify_src_do_seek pos SP_ERROR_OK p))"
    by (simp add: seek_done)
  show ?thesis
    using now later seek stop_fields(5) [of q p] by blast
qed

lemma at_eos_fields:
  "is_eos (src at_eos)" "\<not> flushing (src at_eos)" "queue (src at_eos) = []"
  by (simp_all add: at_eos_def step_def playing_fields spotify_end_of_track_cb_def
      gst_spotify_src_end_of_stream_def g_cond_broadcast_def)

theorem C6_eos_persists_witness:
  "is_eos (src at_eos) \<and> \<not> flushing (src at_eos) \<and> queue (src at_eos) = []
   \<and> gst_spotify_src_create (src at_eos) = (Some GST_FLOW_UNEXPECTED, src at_eos)
   \<and> \<not> flushing (src (exec [Create, MusicDelivery stereo_44100 (replicate 1764 0) 441 True,
                              Create, DoSeek 7000000 (SP_ERROR_OTHER 3), Create] at_eos))
   \<and> gst_spotify_src_create
        (src (exec [Create, MusicDelivery stereo_44100 (replicate 1764 0) 441 True,
                    Create, DoSeek 7000000 (SP_ERROR_OTHER 3), Create] at_eos))
      = (Some GST_FLOW_UNEXPECTED,
         src (exec [Create, MusicDelivery stereo_44100 (replicate 1764 0) 441 True,
                    Create, DoSeek 7000000 (SP_ERROR_OTHER 3), Create] at_eos))
   \<and> \<not> is_eos (snd (gst_spotify_src_do_seek 7000000 SP_ERROR_OK (src at_eos)))
   \<and> \<not> is_eos (snd (gst_spotify_src_stop stop_ok (src at_eos)))"
proof -
  have calm: "\<not> flushing (src (exec [Create, MusicDelivery stereo_44100 (replicate 1764 0) 441 True,
                              Create, DoSeek 7000000 (SP_ERROR_OTHER 3), Create] at_eos))"
    by (simp add: at_eos_def step_def playing_eq spotify_end_of_track_cb_def
      gst_spotify_src_end_of_stream_def gst_spotify_src_create_def create_loop_def
      spotify_music_delivery_cb_def gst_spotify_src_do_seek_def session_defs eval_defs)
  show ?thesis
    using at_eos_fields calm
      C6_eos_persists [where p = "src at_eos" and s = at_eos and pos = 7000000
        and q = stop_ok and ops = "[Create, MusicDelivery stereo_44100 (replicate 1764 0) 441 True,
                    Create, DoSeek 7000000 (SP_ERROR_OTHER 3), Create]"]
    by simp
qed

subsection \<open>Byte accounting\<close>

lemma bytes_of_append: "bytes_of (xs @ ys) = bytes_of xs + bytes_of ys"
  by (simp add: bytes_of_def)

lemma bytes_of_simps [simp]:
  "bytes_of [] = 0"
  "bytes_of (b # bs) = unat (GST_BUFFER_SIZE b) + bytes_of bs"
  by (simp_all add: bytes_of_def)

lemma create_loop_accounted:
  assumes "unat (queued_bytes p) = bytes_of (queue p)"
  shows "unat (queued_bytes (snd (create_loop p))) = bytes_of (queue (snd (create_loop p)))"
proof (cases "queue p")
  case Nil
  then show ?thesis
    using assms by (simp add: create_loop_queue)
next
  case (Cons b rest)
  have "unat (ucast (GST_BUFFER_SIZE b) :: guint64) \<le> unat (queued_bytes p)"
    using assms Cons by (simp add: unat_ucast_guint)
  then have "ucast (GST_BUFFER_SIZE b) \<le> queued_bytes p"
    by (simp add: word_le_nat_alt)
  then have "unat (queued_bytes p - ucast (GST_BUFFER_SIZE b))
               = unat (queued_bytes p) - unat (GST_BUFFER_SIZE b)"
    by (simp add: unat_sub unat_ucast_guint)
  then show ?thesis
    using assms Cons by (simp add: create_loop_def g_cond_broadcast_def)
qed

lemma create_accounted:
  assumes "unat (queued_bytes p) = bytes_of (queue p)"
  shows "unat (queued_bytes (snd (gst_spotify_src_create p)))
           = bytes_of (queue (snd (gst_spotify_src_create p)))"
  using assms create_loop_accounted [of p] by (simp add: gst_spotify_src_create_def)

lemma alloc_accounted:
  assumes "max_bytes p = DEFAULT_PROP_MAX_BYTES" "unat (queued_bytes p) = bytes_of (queue p)"
  shows "unat (queued_bytes (snd (gst_spotify_src_alloc_and_queue n d sz ok p)))
           = bytes_of (queue (snd (gst_spotify_src_alloc_and_queue n d sz ok p)))"
proof (cases "flushing p \<or> is_eos p \<or> (max_bytes p \<noteq> 0 \<and> max_bytes p \<le> queued_bytes p) \<or> \<not> ok")
  case True
  then show ?thesis
    using assms by (simp add: alloc_refused)
next
  case False
  then have below: "queued_bytes p < 1000000"
    using assms(1) by (simp add: DEFAULT_PROP_MAX_BYTES_def not_le)
  then have "unat (queued_bytes p) < 1000000"
    by (simp add: word_less_nat_alt)
  moreover have "unat sz < 2 ^ 32"
    using unsigned_less [of sz, where 'a = nat] by simp
  ultimately have "unat (queued_bytes p) + unat (ucast sz :: guint64) < 2 ^ LENGTH(64)"
    by (simp add: unat_ucast_guint)
  then have "unat (queued_bytes p + ucast sz) = unat (queued_bytes p) + unat sz"
    by (simp add: unat_add_lem [THEN iffD1] unat_ucast_guint)
  moreover have "gst_spotify_src_alloc_and_queue n d sz ok p =
           (True, p\<lparr>queue := queue p @ [queued_buffer n d sz (buffer_timestamp p)],
                    queued_bytes := queued_bytes p + ucast sz,
                    buffer_timestamp := buffer_timestamp p
                       + gst_util_uint64_scale (ucast n) GST_SECOND 44100,
                    broadcasts := Suc (broadcasts p)\<rparr>)"
    using False below assms(1) by (intro alloc_admitted) (auto simp: DEFAULT_PROP_MAX_BYTES_def)
  ultimately show ?thesis
    using assms(2) by (simp add: bytes_of_append queued_buffer_def)
qed

lemma seek_accounted:
  assumes "unat (queued_bytes p) = bytes_of (queue p)"
  shows "unat (queued_bytes (snd (gst_spotify_src_do_seek pos ret p)))
           = bytes_of (queue (snd (gst_spotify_src_do_seek pos ret p)))"
  using assms
  by (simp add: gst_spotify_src_do_seek_def gst_spotify_src_flush_queued_def session_defs)

lemma perform_accounted:
  assumes "max_bytes (src s) = DEFAULT_PROP_MAX_BYTES"
    "unat (queued_bytes (src s)) = bytes_of (queue (src s))"
  shows "max_bytes (src (fst (perform x s))) = DEFAULT_PROP_MAX_BYTES
    \<and> unat (queued_bytes (src (fst (perform x s)))) = bytes_of (queue (src (fst (perform x s))))"
  using assms
  by (cases x)
    (simp_all del: perform.simps add: src_perform start_fields stop_fields unlock_fields
      eos_fields flush_fields create_loop_fields create_fields alloc_fields delivery_fields
      seek_fields snd_delivery create_loop_accounted create_accounted alloc_accounted
      seek_accounted)

lemma exec_accounted:
  "max_bytes (src s) = DEFAULT_PROP_MAX_BYTES \<Longrightarrow>
   unat (queued_bytes (src s)) = bytes_of (queue (src s)) \<Longrightarrow>
   unat (queued_bytes (src (exec ops s))) = bytes_of (queue (src (exec ops s)))"
proof (induction ops arbitrary: s)
  case Nil
  then show ?case by simp
next
  case (Cons x xs)
  have "max_bytes (src (fst (step x s))) = DEFAULT_PROP_MAX_BYTES
    \<and> unat (queued_bytes (src (fst (step x s)))) = bytes_of (queue (src (fst (step x s))))"
    using Cons.prems perform_accounted [of s x] by (cases "wedged s \<and> takes_mutex x") (simp_all add: step_def)
  then show ?case
    using Cons.IH by simp
qed

text \<open>
  C2. After every sequence of calls on the element as created (enqueues, dequeues,
  flushes, and also start, stop, seek, unlock and end of track), and so after each call
  of the sequence, \<open>queued_bytes\<close> is exactly the sum of the sizes of the buffers in the
  queue.
\<close>

theorem C2_queued_bytes_exact:
  "unat (queued_bytes (src (exec ops boot))) = bytes_of (queue (src (exec ops boot)))
   \<and> unat (queued_bytes (src (exec (take n ops) boot)))
       = bytes_of (queue (src (exec (take n ops) boot)))"
proof -
  have "max_bytes (src boot) = DEFAULT_PROP_MAX_BYTES"
    and "unat (queued_bytes (src boot)) = bytes_of (queue (src boot))"
    by (simp_all add: boot_def gst_spotify_src_init_def)
  then show ?thesis
    by (simp add: exec_accounted)
qed

theorem C2_queued_bytes_exact_witness:
  "unat (queued_bytes (src (exec [Start all_ok,
       MusicDelivery stereo_44100 (replicate 1764 0) 441 True,
       MusicDelivery stereo_44100 (replicate 400 0) 100 True, Create] boot)))
   = bytes_of (queue (src (exec [Start all_ok,
       MusicDelivery stereo_44100 (replicate 1764 0) 441 True,
       MusicDelivery stereo_44100 (replicate 400 0) 100 True, Create] boot)))
   \<and> queued_bytes (src (exec [Start all_ok,
       MusicDelivery stereo_44100 (replicate 1764 0) 441 True,
       MusicDelivery stereo_44100 (replicate 400 0) 100 True, Create] boot)) = 400"
proof -
  have "queued_bytes (src (exec [Start all_ok,
       MusicDelivery stereo_44100 (replicate 1764 0) 441 True,
       MusicDelivery stereo_44100 (replicate 400 0) 100 True, Create] boot)) = 400"
    by (simp add: run_defs spotify_music_delivery_cb_def gst_spotify_src_create_def
        create_loop_def stereo_44100_def eval_defs)
  then show ?thesis
    using C2_queued_bytes_exact [of "[Start all_ok,
       MusicDelivery stereo_44100 (replicate 1764 0) 441 True,
       MusicDelivery stereo_44100 (replicate 400 0) 100 True, Create]" 0]
    by simp
qed

subsection \<open>Order of delivery\<close>

lemma returned_of_Cons: "returned_of (e # es) = returned_of [e] @ returned_of es"
proof (cases e)
  case (Returned r)
  then show ?thesis by (cases r) simp_all
qed simp_all

lemma queued_of_Cons: "queued_of (e # es) = queued_of [e] @ queued_of es"
  by (cases e) simp_all

lemma perform_streaming:
  assumes "streaming x"
  shows "caps (src (fst (perform x s))) = caps (src s) \<and>
    ((\<exists>b rest. queue (src s) = b # rest
        \<and> snd (perform x s) = Returned (GST_FLOW_OK (set_caps_opt (caps (src s)) b))
        \<and> queue (src (fst (perform x s))) = rest
        \<and> buffer_timestamp (src (fst (perform x s))) = buffer_timestamp (src s))
     \<or> (\<exists>b. snd (perform x s) = Queued b
        \<and> queue (src (fst (perform x s))) = queue (src s) @ [b]
        \<and> GST_BUFFER_TIMESTAMP b = buffer_timestamp (src s)
        \<and> buffer_timestamp (src (fst (perform x s)))
            = buffer_timestamp (src s) + GST_BUFFER_DURATION b)
     \<or> (queued_of [snd (perform x s)] = [] \<and> returned_of [snd (perform x s)] = []
        \<and> queue (src (fst (perform x s))) = queue (src s)
        \<and> buffer_timestamp (src (fst (perform x s))) = buffer_timestamp (src s)))"
proof (cases x)
  case Unlock
  then show ?thesis by (simp add: unlock_eq)
next
  case UnlockStop
  then show ?thesis by (simp add: gst_spotify_src_unlock_stop_def g_cond_broadcast_def)
next
  case EndOfTrack
  then show ?thesis by (simp add: eos_fields)
next
  case Create
  then show ?thesis
    by (cases "queue (src s)")
      (simp_all add: gst_spotify_src_create_def create_loop_def g_cond_broadcast_def)
next
  case Wake
  then show ?thesis
    by (cases "queue (src s)") (simp_all add: create_loop_def g_cond_broadcast_def)
next
  case (MusicDelivery format frames num_frames alloc_ok)
  show ?thesis
  proof (cases "num_frames = 0 \<or> flushing (src s) \<or> is_eos (src s)
      \<or> (max_bytes (src s) \<noteq> 0 \<and> max_bytes (src s) \<le> queued_bytes (src s)) \<or> \<not> alloc_ok")
    case True
    then show ?thesis
      using MusicDelivery by (simp add: delivery_refused)
  next
    case False
    then have "spotify_music_delivery_cb format frames num_frames alloc_ok (src s) =
           (num_frames,
            (src s)\<lparr>queue := queue (src s) @ [queued_buffer num_frames frames
                        (num_frames * 2 * channels format) (buffer_timestamp (src s))],
              queued_bytes := queued_bytes (src s) + ucast (num_frames * 2 * channels format),
              buffer_timestamp := buffer_timestamp (src s)
                 + gst_util_uint64_scale (ucast num_frames) GST_SECOND 44100,
              broadcasts := Suc (broadcasts (src s))\<rparr>)"
      by (intro delivery_admitted) (auto simp: not_le)
    then show ?thesis
      using MusicDelivery False by (simp add: queued_buffer_def)
  qed
next
  case (AllocAndQueue n d sz ok)
  show ?thesis
  proof (cases "flushing (src s) \<or> is_eos (src s)
      \<or> (max_bytes (src s) \<noteq> 0 \<and> max_bytes (src s) \<le> queued_bytes (src s)) \<or> \<not> ok")
    case True
    then show ?thesis
      using AllocAndQueue by (simp add: alloc_refused)
  next
    case False
    then have "gst_spotify_src_alloc_and_queue n d sz ok (src s) =
           (True, (src s)\<lparr>queue := queue (src s) @ [queued_buffer n d sz (buffer_timestamp (src s))],
                    queued_bytes := queued_bytes (src s) + ucast sz,
                    buffer_timestamp := buffer_timestamp (src s)
                       + gst_util_uint64_scale (ucast n) GST_SECOND 44100,
                    broadcasts := Suc (broadcasts (src s))\<rparr>)"
      by (intro alloc_admitted) (auto simp: not_le)
    then show ?thesis
      using AllocAndQueue by (simp add: queued_buffer_def)
  qed
qed (use assms in simp_all)

lemma step_streaming:
  assumes "streaming x"
  shows "caps (src (fst (step x s))) = caps (src s) \<and>
    ((\<exists>b rest. queue (src s) = b # rest
        \<and> snd (step x s) = Returned (GST_FLOW_OK (set_caps_opt (caps (src s)) b))
        \<and> queue (src (fst (step x s))) = rest
        \<and> buffer_timestamp (src (fst (step x s))) = buffer_timestamp (src s))
     \<or> (\<exists>b. snd (step x s) = Queued b
        \<and> queue (src (fst (step x s))) = queue (src s) @ [b]
        \<and> GST_BUFFER_TIMESTAMP b = buffer_timestamp (src s)
        \<and> buffer_timestamp (src (fst (step x s)))
            = buffer_timestamp (src s) + GST_BUFFER_DURATION b)
     \<or> (queued_of [snd (step x s)] = [] \<and> returned_of [snd (step x s)] = []
        \<and> queue (src (fst (step x s))) = queue (src s)
        \<and> buffer_timestamp (src (fst (step x s))) = buffer_timestamp (src s)))"
proof (cases "wedged s \<and> takes_mutex x")
  case True
  then show ?thesis by (simp add: step_def)
next
  case False
  then have "step x s = perform x s" by (rule step_runs)
  then show ?thesis using perform_streaming [OF assms, of s] by simp
qed

lemma exec_fifo:
  assumes "\<forall>x \<in> set ops. streaming x"
  shows "caps (src (exec ops s)) = caps (src s)
    \<and> returned_of (trace ops s) @ map (set_caps_opt (caps (src s))) (queue (src (exec ops s)))
        = map (set_caps_opt (caps (src s))) (queue (src s) @ queued_of (trace ops s))"
  using assms
proof (induction ops arbitrary: s)
  case Nil
  then show ?case by simp
next
  case (Cons x xs)
  let ?s1 = "fst (step x s)" and ?e = "snd (step x s)"
  have x: "streaming x" and xs: "\<forall>y \<in> set xs. streaming y"
    using Cons.prems by simp_all
  note shape = step_streaming [OF x, of s]
  then have same: "caps (src ?s1) = caps (src s)"
    by simp
  note ih = Cons.IH [OF xs, of ?s1, unfolded same]
  have r: "returned_of (trace (x # xs) s) = returned_of [?e] @ returned_of (trace xs ?s1)"
    unfolding trace.simps by (rule returned_of_Cons)
  have q: "queued_of (trace (x # xs) s) = queued_of [?e] @ queued_of (trace xs ?s1)"
    unfolding trace.simps by (rule queued_of_Cons)
  note split = r q
  consider (deq) b rest where "queue (src s) = b # rest"
      "?e = Returned (GST_FLOW_OK (set_caps_opt (caps (src s)) b))" "queue (src ?s1) = rest"
    | (enq) b where "?e = Queued b" "queue (src ?s1) = queue (src s) @ [b]"
    | (idle) "queued_of [?e] = []" "returned_of [?e] = []" "queue (src ?s1) = queue (src s)"
    using shape by blast
  then have "returned_of (trace (x # xs) s)
        @ map (set_caps_opt (caps (src s))) (queue (src (exec xs ?s1)))
      = map (set_caps_opt (caps (src s))) (queue (src s) @ queued_of (trace (x # xs) s))"
  proof cases
    case deq
    then show ?thesis using ih unfolding split by simp
  next
    case enq
    then show ?thesis using ih unfolding split by simp
  next
    case idle
    then show ?thesis using ih unfolding split by simp
  qed
  then show ?case
    using ih by simp
qed

text \<open>
  C7. Through any interleaving of enqueues, dequeues, wake-ups, unlocks and end-of-track
  signals, the buffers returned to the consumer followed by the buffers still queued are
  the buffers queued at the beginning followed by the buffers admitted, in that order
  (each as \<^verbatim>\<open>create\<close> hands it out, that is with the element's caps set when it has
  caps): nothing is reordered, duplicated or skipped.
\<close>

theorem C7_fifo:
  assumes "\<forall>x \<in> set ops. streaming x"
  shows "returned_of (trace ops s)
           @ map (set_caps_opt (caps (src s))) (queue (src (exec ops s)))
         = map (set_caps_opt (caps (src s))) (queue (src s) @ queued_of (trace ops s))"
  using exec_fifo [OF assms] by simp

lemmas trace_defs = step_def playing_eq gst_spotify_src_init_def DEFAULT_PROP_MAX_BYTES_def
  spotify_music_delivery_cb_def gst_spotify_src_create_def create_loop_def stereo_44100_def
  set_caps_opt_def gst_spotify_src_alloc_and_queue_def g_cond_broadcast_def
  gst_buffer_new_and_alloc_def memcpy_def Let_def gst_util_uint64_scale_def GST_SECOND_def

lemma two_in_two_out_run:
  "trace two_in_two_out playing =
     [Queued (queued_buffer 441 (replicate 1764 0) 1764 0),
      Returned (GST_FLOW_OK (queued_buffer 441 (replicate 1764 0) 1764 0)),
      Waits,
      Queued (queued_buffer 100 (replicate 400 1) 400 10000000),
      Returned (GST_FLOW_OK (queued_buffer 100 (replicate 400 1) 400 10000000))]"
  "queue (src (exec two_in_two_out playing)) = []"
  by (simp_all add: two_in_two_out_def trace_defs queued_buffer_def)

theorem C7_fifo_witness:
  "list_all streaming two_in_two_out
   \<and> returned_of (trace two_in_two_out playing)
       = [queued_buffer 441 (replicate 1764 0) 1764 0,
          queued_buffer 100 (replicate 400 1) 400 10000000]
   \<and> returned_of (trace two_in_two_out playing) = queued_of (trace two_in_two_out playing)"
proof -
  have all: "\<forall>x \<in> set two_in_two_out. streaming x"
    by (simp add: two_in_two_out_def)
  show ?thesis
    using all C7_fifo [OF all, of playing]
    by (simp add: two_in_two_out_run playing_fields set_caps_opt_def list_all_iff)
qed

subsection \<open>Timestamps\<close>

lemma linked_append:
  "linked t (xs @ ys) = (linked t xs \<and> linked (position_after t xs) ys)"
  by (induction xs arbitrary: t) auto

lemma position_after_append:
  "position_after t (xs @ ys) = position_after (position_after t xs) ys"
  by (induction xs arbitrary: t) auto

lemma set_caps_opt_time [simp]:
  "GST_BUFFER_TIMESTAMP (set_caps_opt c b) = GST_BUFFER_TIMESTAMP b"
  "GST_BUFFER_DURATION (set_caps_opt c b) = GST_BUFFER_DURATION b"
  by (simp_all add: set_caps_opt_def split: option.splits)

lemma linked_set_caps: "linked t (map (set_caps_opt c) bs) = linked t bs"
  by (induction bs arbitrary: t) auto

lemma linked_next:
  "linked t bs \<Longrightarrow> Suc i < length bs \<Longrightarrow>
   GST_BUFFER_TIMESTAMP (bs ! Suc i) = GST_BUFFER_TIMESTAMP (bs ! i) + GST_BUFFER_DURATION (bs ! i)"
proof (induction bs arbitrary: t i)
  case Nil
  then show ?case by simp
next
  case (Cons b bs)
  show ?case
  proof (cases i)
    case 0
    then show ?thesis
      using Cons.prems by (cases bs) simp_all
  next
    case (Suc j)
    then show ?thesis
      using Cons.prems Cons.IH [of "t + GST_BUFFER_DURATION b" j] by simp
  qed
qed

lemma durations_simps [simp]:
  "durations [] = 0"
  "durations (b # bs) = unat (GST_BUFFER_DURATION b) + durations bs"
  by (simp_all add: durations_def)

lemma linked_mono:
  "linked t bs \<Longrightarrow> unat t + durations bs < 2 ^ 64 \<Longrightarrow> Suc i < length bs \<Longrightarrow>
   GST_BUFFER_TIMESTAMP (bs ! i) \<le> GST_BUFFER_TIMESTAMP (bs ! Suc i)"
proof (induction bs arbitrary: t i)
  case Nil
  then show ?case by simp
next
  case (Cons b bs)
  have room: "unat t + unat (GST_BUFFER_DURATION b) < 2 ^ LENGTH(64)"
    using Cons.prems(2) by simp
  then have sum: "unat (t + GST_BUFFER_DURATION b) = unat t + unat (GST_BUFFER_DURATION b)"
    by (simp add: unat_add_lem [THEN iffD1])
  show ?case
  proof (cases i)
    case 0
    then obtain c cs where bs: "bs = c # cs"
      using Cons.prems(3) by (cases bs) simp_all
    have "t \<le> t + GST_BUFFER_DURATION b"
      using sum by (simp add: word_le_nat_alt)
    then show ?thesis
      using 0 bs Cons.prems(1) by simp
  next
    case (Suc j)
    have "unat (t + GST_BUFFER_DURATION b) + durations bs < 2 ^ 64"
      using Cons.prems(2) sum by simp
    then show ?thesis
      using Suc Cons.prems Cons.IH [of "t + GST_BUFFER_DURATION b" j] by simp
  qed
qed

lemma position_after_set_caps:
  "position_after t (map (set_caps_opt c) bs) = position_after t bs"
  by (induction bs arbitrary: t) auto

lemma exec_linked:
  assumes "\<forall>x \<in> set ops. streaming x" "linked t (queue (src s))"
    "position_after t (queue (src s)) = buffer_timestamp (src s)"
  shows "linked t (queue (src s) @ queued_of (trace ops s))
    \<and> position_after t (queue (src s) @ queued_of (trace ops s))
        = buffer_timestamp (src (exec ops s))"
  using assms
proof (induction ops arbitrary: s t)
  case Nil
  then show ?case by simp
next
  case (Cons x xs)
  let ?s1 = "fst (step x s)" and ?e = "snd (step x s)"
  have x: "streaming x" and xs: "\<forall>y \<in> set xs. streaming y"
    using Cons.prems by simp_all
  have q: "queued_of (trace (x # xs) s) = queued_of [?e] @ queued_of (trace xs ?s1)"
    unfolding trace.simps by (rule queued_of_Cons)
  consider (deq) b rest where "queue (src s) = b # rest"
      "?e = Returned (GST_FLOW_OK (set_caps_opt (caps (src s)) b))" "queue (src ?s1) = rest"
      "buffer_timestamp (src ?s1) = buffer_timestamp (src s)"
    | (enq) b where "?e = Queued b" "queue (src ?s1) = queue (src s) @ [b]"
      "GST_BUFFER_TIMESTAMP b = buffer_timestamp (src s)"
      "buffer_timestamp (src ?s1) = buffer_timestamp (src s) + GST_BUFFER_DURATION b"
    | (idle) "queued_of [?e] = []" "queue (src ?s1) = queue (src s)"
      "buffer_timestamp (src ?s1) = buffer_timestamp (src s)"
    using step_streaming [OF x, of s] by blast
  then show ?case
  proof cases
    case deq
    have "linked (t + GST_BUFFER_DURATION b) (queue (src ?s1) @ queued_of (trace xs ?s1))
      \<and> position_after (t + GST_BUFFER_DURATION b) (queue (src ?s1) @ queued_of (trace xs ?s1))
          = buffer_timestamp (src (exec xs ?s1))"
      using Cons.prems(2,3) deq by (intro Cons.IH [OF xs]) simp_all
    then show ?thesis
      using Cons.prems(2) deq unfolding q by simp
  next
    case enq
    have "linked t (queue (src ?s1) @ queued_of (trace xs ?s1))
      \<and> position_after t (queue (src ?s1) @ queued_of (trace xs ?s1))
          = buffer_timestamp (src (exec xs ?s1))"
      using Cons.prems(2,3) enq
      by (intro Cons.IH [OF xs]) (simp_all add: linked_append position_after_append)
    then show ?thesis
      using enq unfolding q by simp
  next
    case idle
    have "linked t (queue (src ?s1) @ queued_of (trace xs ?s1))
      \<and> position_after t (queue (src ?s1) @ queued_of (trace xs ?s1))
          = buffer_timestamp (src (exec xs ?s1))"
      using Cons.prems(2,3) idle by (intro Cons.IH [OF xs]) simp_all
    then show ?thesis
      using idle unfolding q by simp
  qed
qed

lemma returned_linked:
  assumes "\<forall>x \<in> set ops. streaming x" "linked t (queue (src s))"
    "position_after t (queue (src s)) = buffer_timestamp (src s)"
  shows "linked t (returned_of (trace ops s))
    \<and> linked (position_after t (returned_of (trace ops s))) (queue (src (exec ops s)))
    \<and> position_after (position_after t (returned_of (trace ops s))) (queue (src (exec ops s)))
        = buffer_timestamp (src (exec ops s))"
proof -
  let ?c = "set_caps_opt (caps (src s))"
  have whole: "linked t (map ?c (queue (src s) @ queued_of (trace ops s)))
    \<and> position_after t (map ?c (queue (src s) @ queued_of (trace ops s)))
        = buffer_timestamp (src (exec ops s))"
    using exec_linked [OF assms] by (simp only: linked_set_caps position_after_set_caps)
  have fifo: "map ?c (queue (src s) @ queued_of (trace ops s))
     = returned_of (trace ops s) @ map ?c (queue (src (exec ops s)))"
    using exec_fifo [OF assms(1), of s] by simp
  show ?thesis
    using whole unfolding fifo
    by (simp add: linked_append position_after_append linked_set_caps position_after_set_caps)
qed

text \<open>
  C8, as the code has it. Take a run with no start, stop, seek or flush in it, from a
  state whose queue is chained to the running position: the queued buffers are linked
  from some \<open>t\<close> and the chain ends at the running position (with an empty queue,
  \<open>t\<close> is the running position). Then the buffers returned to the consumer are linked
  from \<open>t\<close>: each timestamp is the previous buffer's timestamp plus the previous
  buffer's duration in 64-bit arithmetic, and so the timestamps are non-decreasing as
  long as \<open>t\<close> plus the durations stay below \<open>2 ^ 64\<close>; and the run ends in a state
  whose queue is again chained to the running position. A seek that took the normal path
  and succeeded leaves the running position at the seek target, with an empty queue. The
  swallowed first seek to 0 returns success and leaves position and queue alone, and so
  does a seek that the client refuses.
\<close>

theorem C8_timestamps:
  fixes ops s t p pos ret
  defines "out \<equiv> returned_of (trace ops s)"
  assumes "\<forall>x \<in> set ops. streaming x" "linked t (queue (src s))"
    "position_after t (queue (src s)) = buffer_timestamp (src s)"
  shows "linked t out
    \<and> (queue (src s) = [] \<longrightarrow> t = buffer_timestamp (src s))
    \<and> (\<forall>i. Suc i < length out \<longrightarrow>
          GST_BUFFER_TIMESTAMP (out ! Suc i)
            = GST_BUFFER_TIMESTAMP (out ! i) + GST_BUFFER_DURATION (out ! i))
    \<and> (unat t + durations out < 2 ^ 64 \<longrightarrow>
         (\<forall>i. Suc i < length out \<longrightarrow>
            GST_BUFFER_TIMESTAMP (out ! i) \<le> GST_BUFFER_TIMESTAMP (out ! Suc i)))
    \<and> linked (position_after t out) (queue (src (exec ops s)))
    \<and> position_after (position_after t out) (queue (src (exec ops s)))
        = buffer_timestamp (src (exec ops s))
    \<and> (\<not> (is_first_seek p \<and> pos = 0) \<longrightarrow>
         fst (gst_spotify_src_do_seek pos SP_ERROR_OK p)
         \<and> buffer_timestamp (snd (gst_spotify_src_do_seek pos SP_ERROR_OK p)) = pos
         \<and> queue (snd (gst_spotify_src_do_seek pos SP_ERROR_OK p)) = [])
    \<and> (is_first_seek p \<longrightarrow>
         fst (gst_spotify_src_do_seek 0 ret p)
         \<and> buffer_timestamp (snd (gst_spotify_src_do_seek 0 ret p)) = buffer_timestamp p
         \<and> queue (snd (gst_spotify_src_do_seek 0 ret p)) = queue p)
    \<and> (ret \<noteq> SP_ERROR_OK \<longrightarrow>
         buffer_timestamp (snd (gst_spotify_src_do_seek pos ret p)) = buffer_timestamp p
         \<and> queue (snd (gst_spotify_src_do_seek pos ret p)) = queue p)"
proof -
  note all = returned_linked [OF assms(2-4), folded out_def]
  have chain: "linked t out"
    using all by simp
  have first: "queue (src s) = [] \<longrightarrow> t = buffer_timestamp (src s)"
    using assms(4) by auto
  have seek: "\<not> (is_first_seek p \<and> pos = 0) \<longrightarrow>
         fst (gst_spotify_src_do_seek pos SP_ERROR_OK p)
         \<and> buffer_timestamp (snd (gst_spotify_src_do_seek pos SP_ERROR_OK p)) = pos
         \<and> queue (snd (gst_spotify_src_do_seek pos SP_ERROR_OK p)) = []"
    by (simp add: seek_done)
  have swallowed: "is_first_seek p \<longrightarrow>
         fst (gst_spotify_src_do_seek 0 ret p)
         \<and> buffer_timestamp (snd (gst_spotify_src_do_seek 0 ret p)) = buffer_timestamp p
         \<and> queue (snd (gst_spotify_src_do_seek 0 ret p)) = queue p"
    by (simp add: seek_first)
  have failed: "ret \<noteq> SP_ERROR_OK \<longrightarrow>
         buffer_timestamp (snd (gst_spotify_src_do_seek pos ret p)) = buffer_timestamp p
         \<and> queue (snd (gst_spotify_src_do_seek pos ret p)) = queue p"
    by (cases "is_first_seek p \<and> pos = 0") (auto simp: seek_first seek_failed)
  show ?thesis
    using all first seek swallowed failed linked_next [OF chain] linked_mono [OF chain]
    by blast
qed

lemma delivered_10ms_fields:
  "queue (src delivered_10ms) = [queued_buffer 441 (replicate 1764 0) 1764 0]"
  "buffer_timestamp (src delivered_10ms) = 10000000"
  "is_first_seek (src delivered_10ms)"
  by (simp_all add: delivered_10ms_def trace_defs queued_buffer_def)

lemma one_more_then_pull_run:
  "returned_of (trace one_more_then_pull delivered_10ms) =
     [queued_buffer 441 (replicate 1764 0) 1764 0,
      queued_buffer 441 (replicate 1764 0) 1764 10000000]"
  "queue (src (exec one_more_then_pull delivered_10ms)) = []"
  "buffer_timestamp (src (exec one_more_then_pull delivered_10ms)) = 20000000"
  by (simp_all add: one_more_then_pull_def delivered_10ms_def trace_defs queued_buffer_def)

lemma two_deliveries_run:
  "returned_of (trace two_deliveries playing) =
     [queued_buffer 441 (replicate 1764 0) 1764 0,
      queued_buffer 441 (replicate 1764 0) 1764 10000000]"
  by (simp add: two_deliveries_def trace_defs queued_buffer_def)

theorem C8_timestamps_witness:
  "list_all streaming one_more_then_pull
   \<and> linked 0 (queue (src delivered_10ms))
   \<and> position_after 0 (queue (src delivered_10ms)) = buffer_timestamp (src delivered_10ms)
   \<and> queue (src delivered_10ms) \<noteq> []
   \<and> map GST_BUFFER_TIMESTAMP (returned_of (trace one_more_then_pull delivered_10ms))
       = [0, 10000000]
   \<and> linked 0 (returned_of (trace one_more_then_pull delivered_10ms))
   \<and> GST_BUFFER_TIMESTAMP (returned_of (trace one_more_then_pull delivered_10ms) ! 0)
       \<le> GST_BUFFER_TIMESTAMP (returned_of (trace one_more_then_pull delivered_10ms) ! Suc 0)
   \<and> position_after 0 (returned_of (trace one_more_then_pull delivered_10ms))
       = buffer_timestamp (src (exec one_more_then_pull delivered_10ms))
   \<and> fst (gst_spotify_src_do_seek 5000000000 SP_ERROR_OK (src delivered_10ms))
   \<and> buffer_timestamp
        (snd (gst_spotify_src_do_seek 5000000000 SP_ERROR_OK (src delivered_10ms)))
       = 5000000000
   \<and> fst (gst_spotify_src_do_seek 0 SP_ERROR_OK (src delivered_10ms))
   \<and> buffer_timestamp (snd (gst_spotify_src_do_seek 0 SP_ERROR_OK (src delivered_10ms)))
       = 10000000
   \<and> buffer_timestamp
        (snd (gst_spotify_src_do_seek 5000000000 (SP_ERROR_OTHER 1) (src delivered_10ms)))
       = 10000000
   \<and> queue (snd (gst_spotify_src_do_seek 5000000000 (SP_ERROR_OTHER 1) (src delivered_10ms)))
       = queue (src delivered_10ms)
   \<and> queue (src playing) = []
   \<and> linked (buffer_timestamp (src playing)) (returned_of (trace two_deliveries playing))"
proof -
  have plain: "\<forall>x \<in> set two_deliveries. streaming x"
    by (simp add: two_deliveries_def)
  have empty: "linked (buffer_timestamp (src playing)) (queue (src playing))"
    "position_after (buffer_timestamp (src playing)) (queue (src playing))
       = buffer_timestamp (src playing)"
    by (simp_all add: playing_fields)
  have fresh: "linked (buffer_timestamp (src playing)) (returned_of (trace two_deliveries playing))"
    using C8_timestamps [OF plain empty] by blast
  have all: "\<forall>x \<in> set one_more_then_pull. streaming x"
    by (simp add: one_more_then_pull_def)
  have ten: "gst_util_uint64_scale 441 GST_SECOND 44100 = 10000000"
    by (simp add: gst_util_uint64_scale_def GST_SECOND_def)
  have chained: "linked 0 (queue (src delivered_10ms))"
    "position_after 0 (queue (src delivered_10ms)) = buffer_timestamp (src delivered_10ms)"
    by (simp_all add: delivered_10ms_fields queued_buffer_def ten)
  note inst = C8_timestamps [OF all chained, where p = "src delivered_10ms"
      and pos = 5000000000 and ret = SP_ERROR_OK]
  have room: "unat (0 :: GstClockTime)
                 + durations (returned_of (trace one_more_then_pull delivered_10ms)) < 2 ^ 64"
    by (simp add: one_more_then_pull_run queued_buffer_def ten)
  have two: "Suc 0 < length (returned_of (trace one_more_then_pull delivered_10ms))"
    by (simp add: one_more_then_pull_run)
  have away: "\<not> (is_first_seek (src delivered_10ms) \<and> (5000000000 :: gint64) = 0)"
    by simp
  have chain: "linked 0 (returned_of (trace one_more_then_pull delivered_10ms))"
    using inst by blast
  have order: "GST_BUFFER_TIMESTAMP (returned_of (trace one_more_then_pull delivered_10ms) ! 0)
       \<le> GST_BUFFER_TIMESTAMP (returned_of (trace one_more_then_pull delivered_10ms) ! Suc 0)"
    using inst room two by blast
  have ends: "position_after 0 (returned_of (trace one_more_then_pull delivered_10ms))
       = buffer_timestamp (src (exec one_more_then_pull delivered_10ms))"
    using inst by (simp add: one_more_then_pull_run(2))
  have seek: "fst (gst_spotify_src_do_seek 5000000000 SP_ERROR_OK (src delivered_10ms))
     \<and> buffer_timestamp
          (snd (gst_spotify_src_do_seek 5000000000 SP_ERROR_OK (src delivered_10ms)))
         = 5000000000"
    using inst away by blast
  have swallowed: "fst (gst_spotify_src_do_seek 0 SP_ERROR_OK (src delivered_10ms))
     \<and> buffer_timestamp (snd (gst_spotify_src_do_seek 0 SP_ERROR_OK (src delivered_10ms)))
         = 10000000"
    using inst delivered_10ms_fields(2,3) by simp
  have stamps: "map GST_BUFFER_TIMESTAMP (returned_of (trace one_more_then_pull delivered_10ms))
                  = [0, 10000000]"
    by (simp add: one_more_then_pull_run queued_buffer_def)
  have streams: "list_all streaming one_more_then_pull"
    by (simp add: one_more_then_pull_def)
  have some: "queue (src delivered_10ms) \<noteq> []"
    by (simp add: delivered_10ms_fields)
  have failed: "buffer_timestamp
        (snd (gst_spotify_src_do_seek 5000000000 (SP_ERROR_OTHER 1) (src delivered_10ms)))
       = 10000000
     \<and> queue (snd (gst_spotify_src_do_seek 5000000000 (SP_ERROR_OTHER 1) (src delivered_10ms)))
       = queue (src delivered_10ms)"
    using C8_timestamps [OF all chained, where p = "src delivered_10ms"
      and pos = 5000000000 and ret = "SP_ERROR_OTHER 1"] delivered_10ms_fields(2)
    by simp
  show ?thesis
    using streams chained some stamps chain order ends seek swallowed failed
      playing_fields(3) fresh
    by blast
qed

text \<open>
  Against C8 as stated. First: after a start and one delivered buffer of 10 ms, the first
  seek to 0 returns success and the running position is 10000000, not 0. Second: from a
  running position of \<open>2 ^ 64 - 1\<close> two buffers are queued and returned without any
  seek in between, and the second timestamp, 9999999, is below the first.
\<close>

theorem C8_counterexample:
  "fst (gst_spotify_src_do_seek 0 SP_ERROR_OK (src delivered_10ms))
   \<and> buffer_timestamp (snd (gst_spotify_src_do_seek 0 SP_ERROR_OK (src delivered_10ms)))
       = 10000000
   \<and> list_all streaming two_deliveries
   \<and> map GST_BUFFER_TIMESTAMP (returned_of (trace two_deliveries near_wrap))
       = [18446744073709551615, 9999999]
   \<and> \<not> GST_BUFFER_TIMESTAMP (returned_of (trace two_deliveries near_wrap) ! 0)
         \<le> GST_BUFFER_TIMESTAMP (returned_of (trace two_deliveries near_wrap) ! Suc 0)"
proof -
  have early: "fst (gst_spotify_src_do_seek 0 SP_ERROR_OK (src delivered_10ms))
     \<and> buffer_timestamp (snd (gst_spotify_src_do_seek 0 SP_ERROR_OK (src delivered_10ms)))
         = 10000000"
    by (simp add: delivered_10ms_def trace_defs gst_spotify_src_do_seek_def)
  have wrapped: "src near_wrap = (src playing)
      \<lparr>is_first_seek := False, buffer_timestamp := 18446744073709551615,
       client_calls := client_calls (src playing) @ [spw_session_player_seek 0]\<rparr>"
    by (simp add: near_wrap_def step_def playing_eq gst_spotify_src_do_seek_def
        gst_spotify_src_flush_queued_def session_defs GST_MSECOND_def signed_divide_int_def
        gst_spotify_src_init_def)
  have live: "\<not> wedged near_wrap"
    by (simp add: near_wrap_def step_def playing_eq gst_spotify_src_do_seek_def
        gst_spotify_src_flush_queued_def session_defs)
  have out: "returned_of (trace two_deliveries near_wrap) =
     [queued_buffer 441 (replicate 1764 0) 1764 18446744073709551615,
      queued_buffer 441 (replicate 1764 0) 1764 9999999]"
    using live by (simp add: two_deliveries_def wrapped trace_defs queued_buffer_def)
  have late: "map GST_BUFFER_TIMESTAMP (returned_of (trace two_deliveries near_wrap))
       = [18446744073709551615, 9999999]"
    unfolding out by (simp add: queued_buffer_def)
  have streams: "list_all streaming two_deliveries"
    by (simp add: two_deliveries_def)
  have "\<not> GST_BUFFER_TIMESTAMP (returned_of (trace two_deliveries near_wrap) ! 0)
         \<le> GST_BUFFER_TIMESTAMP (returned_of (trace two_deliveries near_wrap) ! Suc 0)"
    unfolding out by (simp add: queued_buffer_def)
  then show ?thesis
    using early late streams by blast
qed

end
